theory Spec2Isabelle
  imports Main
begin

section \<open>Values and exceptions of the scanned program\<close>

text \<open>
  The program (\<^verbatim>\<open>cs_scanimage.py\<close>) works on documents decoded from JSON. A decoded
  document is a Python value: \<^verbatim>\<open>None\<close>, a bool, an int, a float, a str, a list or a dict
  with string keys. A dict is an association list in insertion order (a Python dict holds
  each key once). No operation of the program looks inside a float, so a float is kept as
  a mantissa and an exponent: the decimal it stands for. A string is a list of chars,
  each standing for the code point of its number; a string with a code point above 255
  is outside the model.
\<close>

datatype json =
    JNull
  | JBool bool
  | JInt int
  | JFloat int int
  | JStr string
  | JList "json list"
  | JDict "(string \<times> json) list"

text \<open>Every exception the modelled code can raise is a value.\<close>

datatype error =
    KeyError string
  | TypeError
  | AttributeError
  | UnboundLocalError
  | ValueError
  | APIError string
  | External string

text \<open>
  What the program does besides computing: calls to the logger (level, format string,
  arguments), sleeping, the two HTTP requests and the write of the exported report (file
  name and text).
\<close>

datatype level = DEBUG | INFO | WARNING | ERROR

datatype event =
    Log level string "json list"
  | Sleep int
  | HttpPost string "(string \<times> string) list"
  | HttpGet string string
  | WriteFile string string

type_synonym 'a io = "event list \<times> (error + 'a)"

definition ret :: "'a \<Rightarrow> 'a io" where
  "ret x = ([], Inr x)"

definition raise :: "error \<Rightarrow> 'a io" where
  "raise e = ([], Inl e)"

definition emit :: "event \<Rightarrow> unit io" where
  "emit ev = ([ev], Inr ())"

definition lift :: "error + 'a \<Rightarrow> 'a io" where
  "lift r = ([], r)"

text \<open>Sequencing: an exception ends the computation, the events so far stay.\<close>

definition bind_io :: "'a io \<Rightarrow> ('a \<Rightarrow> 'b io) \<Rightarrow> 'b io" where
  "bind_io m f =
     (case m of
        (t, Inl e) \<Rightarrow> (t, Inl e)
      | (t, Inr x) \<Rightarrow> (case f x of (t', r) \<Rightarrow> (t @ t', r)))"

definition bind_res :: "error + 'a \<Rightarrow> ('a \<Rightarrow> error + 'b) \<Rightarrow> error + 'b" where
  "bind_res m f = (case m of Inl e \<Rightarrow> Inl e | Inr x \<Rightarrow> f x)"

subsection \<open>The Python operations the program applies to decoded values\<close>

text \<open>\<^verbatim>\<open>d[k]\<close> on a dict: \<^verbatim>\<open>KeyError\<close> when the key is absent.\<close>

definition dict_getitem :: "(string \<times> json) list \<Rightarrow> string \<Rightarrow> error + json" where
  "dict_getitem d k = (case map_of d k of None \<Rightarrow> Inl (KeyError k) | Some v \<Rightarrow> Inr v)"

text \<open>
  \<^verbatim>\<open>x[k]\<close> with a string key on any decoded value: a list or a str wants an
  integer index and every other non-dict value is not subscriptable, both \<^verbatim>\<open>TypeError\<close>.
\<close>

fun py_getitem :: "json \<Rightarrow> string \<Rightarrow> error + json" where
  "py_getitem (JDict d) k = dict_getitem d k"
| "py_getitem _ k = Inl TypeError"

text \<open>\<^verbatim>\<open>x.get(k, default)\<close>: only a dict has the method.\<close>

fun py_get :: "json \<Rightarrow> string \<Rightarrow> json \<Rightarrow> error + json" where
  "py_get (JDict d) k dflt = Inr (case map_of d k of None \<Rightarrow> dflt | Some v \<Rightarrow> v)"
| "py_get _ k dflt = Inl AttributeError"

text \<open>
  \<^verbatim>\<open>for x in v\<close>: a list gives its elements, a dict its keys, a str its characters;
  nothing else is iterable.
\<close>

fun py_iter :: "json \<Rightarrow> error + json list" where
  "py_iter (JList xs) = Inr xs"
| "py_iter (JDict d) = Inr (map (\<lambda>kv. JStr (fst kv)) d)"
| "py_iter (JStr s) = Inr (map (\<lambda>c. JStr [c]) s)"
| "py_iter _ = Inl TypeError"

text \<open>
  \<^verbatim>\<open>str.lower\<close> on ASCII letters; every other char is kept. Python also lowers the
  letters outside ASCII, to letters outside ASCII (but for the Kelvin sign, which is
  above 255 and lowers to \<^verbatim>\<open>k\<close>). The program only compares lowered strings with
  the ASCII words \<^verbatim>\<open>low\<close>, \<^verbatim>\<open>medium\<close>, \<^verbatim>\<open>high\<close>, \<^verbatim>\<open>critical\<close>,
  \<^verbatim>\<open>malware\<close>, \<^verbatim>\<open>secret\<close>, \<^verbatim>\<open>misconfiguration\<close> and \<^verbatim>\<open>cis\<close>, none of which
  contains a \<^verbatim>\<open>k\<close>, so these comparisons come out as in Python.
\<close>

definition lower_char :: "char \<Rightarrow> char" where
  "lower_char c =
     (if 65 \<le> (of_char c :: nat) \<and> (of_char c :: nat) \<le> 90
      then char_of ((of_char c :: nat) + 32) else c)"

definition lower :: "string \<Rightarrow> string" where
  "lower s = map lower_char s"

text \<open>\<^verbatim>\<open>x.lower()\<close>: only a str has the method.\<close>

fun py_lower :: "json \<Rightarrow> error + string" where
  "py_lower (JStr s) = Inr (lower s)"
| "py_lower _ = Inl AttributeError"

fun isinstance_dict :: "json \<Rightarrow> bool" where
  "isinstance_dict (JDict d) = True"
| "isinstance_dict _ = False"

section \<open>Status codes\<close>

datatype ScanStatusCode = Vulnerability | Malware | Secrets | Success | ScriptFailure

fun code_value :: "ScanStatusCode \<Rightarrow> int" where
  "code_value Vulnerability = 1"
| "code_value Malware = 2"
| "code_value Secrets = 3"
| "code_value Success = 0"
| "code_value ScriptFailure = 10"

section \<open>The scan report and its four scans\<close>

type_synonym ScanReport = "(string \<times> json) list"

definition vuln_str_key_1 :: string where "vuln_str_key_1 = ''Vulnerabilities''"
definition detect_str_key :: string where "detect_str_key = ''Detections''"
definition type_malware :: string where "type_malware = ''malware''"
definition type_secret :: string where "type_secret = ''secret''"
definition type_misconfig :: string where "type_misconfig = ''misconfiguration''"
definition type_cis :: string where "type_cis = ''cis''"

text \<open>
  Lines 183 to 195 of \<^verbatim>\<open>get_alerts_vuln\<close>: the severity of one \<^verbatim>\<open>vuln\<close> mapping.
  \<^verbatim>\<open>details = vuln.get('Details', {})\<close>; when it is a dict the severity is looked up under
  \<^verbatim>\<open>cvss_v3_score\<close>, then, while it is still \<^verbatim>\<open>None\<close>, under \<^verbatim>\<open>cvss_v2_score\<close> and in
  the details themselves (default \<^verbatim>\<open>''\<close>); otherwise it is \<^verbatim>\<open>''\<close>.
\<close>

definition resolve_severity :: "json \<Rightarrow> error + json" where
  "resolve_severity vuln =
     bind_res (py_get vuln ''Details'' (JDict [])) (\<lambda>details.
       if isinstance_dict details then
         bind_res (py_get details ''cvss_v3_score'' (JDict [])) (\<lambda>cvss_v3.
         bind_res (py_get cvss_v3 ''severity'' JNull) (\<lambda>severity.
         bind_res (if severity = JNull then
                     bind_res (py_get details ''cvss_v2_score'' (JDict [])) (\<lambda>cvss_v2.
                       py_get cvss_v2 ''severity'' JNull)
                   else Inr severity) (\<lambda>severity.
         if severity = JNull then py_get details ''severity'' (JStr '''')
         else Inr severity)))
       else Inr (JStr ''''))"

text \<open>
  The four \<^verbatim>\<open>if severity.lower() == ...\<close> statements of lines 201 to 208, on the
  lowered severity.
\<close>

definition add_score :: "string \<Rightarrow> int \<Rightarrow> int" where
  "add_score sev vuln_score =
     (let critical_score = 2000; high_score = 500; medium_score = 100; low_score = 20;
          s1 = (if sev = ''low'' then vuln_score + low_score else vuln_score);
          s2 = (if sev = ''medium'' then s1 + medium_score else s1);
          s3 = (if sev = ''high'' then s2 + high_score else s2)
      in if sev = ''critical'' then s3 + critical_score else s3)"

text \<open>One turn of the loop of \<^verbatim>\<open>get_alerts_vuln\<close> (lines 181 to 208).\<close>

definition vuln_step :: "json \<Rightarrow> int \<Rightarrow> int io" where
  "vuln_step vulnerability vuln_score =
     bind_io (lift (py_getitem vulnerability ''Vulnerability'')) (\<lambda>vuln.
     bind_io (lift (py_get vuln ''CVEID'' (JStr ''CVE-unknown''))) (\<lambda>cve.
     bind_io (lift (resolve_severity vuln)) (\<lambda>severity.
     bind_io (lift (py_get vuln ''Product'' (JDict []))) (\<lambda>product.
     bind_io (lift (py_get product ''PackageSource'' product)) (\<lambda>affects.
     bind_io (emit (Log WARNING ''%-8s %-16s Vulnerability detected affecting %s''
                      [severity, cve, affects])) (\<lambda>_.
     bind_io (lift (py_lower severity)) (\<lambda>sev.
     ret (add_score sev vuln_score))))))))"

fun vuln_loop :: "json list \<Rightarrow> int \<Rightarrow> int io" where
  "vuln_loop [] vuln_score = ret vuln_score"
| "vuln_loop (vulnerability # rest) vuln_score =
     bind_io (vuln_step vulnerability vuln_score) (\<lambda>vuln_score'. vuln_loop rest vuln_score')"

definition get_alerts_vuln :: "ScanReport \<Rightarrow> int io" where
  "get_alerts_vuln self =
     bind_io (emit (Log INFO ''Searching for vulnerabilities in scan report...'' [])) (\<lambda>_.
     bind_io (lift (dict_getitem self vuln_str_key_1)) (\<lambda>vulnerabilities.
     if vulnerabilities \<noteq> JNull then
       bind_io (lift (py_iter vulnerabilities)) (\<lambda>vs. vuln_loop vs 0)
     else ret 0))"

text \<open>\<^verbatim>\<open>detection['Detection']['Type'].lower()\<close>, the test of the three detection scans.\<close>

definition detection_type :: "json \<Rightarrow> error + string" where
  "detection_type detection =
     bind_res (py_getitem detection ''Detection'') (\<lambda>d.
     bind_res (py_getitem d ''Type'') py_lower)"

text \<open>
  The loop the three detection scans share, up to the types they look for, the alert they
  log and the code they return: the first detection of a wanted type logs the alert, sets
  \<^verbatim>\<open>det_code\<close> and breaks; a \<^verbatim>\<open>KeyError\<close> continues with the next detection, any
  other exception leaves the loop and the function; without a hit \<^verbatim>\<open>det_code\<close> is
  still 0. \<open>hit_code\<close> is the value \<^verbatim>\<open>det_code\<close> takes at a hit.
\<close>

fun detection_loop :: "string list \<Rightarrow> event \<Rightarrow> int \<Rightarrow> json list \<Rightarrow> int io" where
  "detection_loop wanted alert hit_code [] = ret 0"
| "detection_loop wanted alert hit_code (detection # rest) =
     (case detection_type detection of
        Inl e \<Rightarrow>
          (case e of
             KeyError k \<Rightarrow> detection_loop wanted alert hit_code rest
           | _ \<Rightarrow> raise e)
      | Inr t \<Rightarrow>
          if t \<in> set wanted then bind_io (emit alert) (\<lambda>_. ret hit_code)
          else detection_loop wanted alert hit_code rest)"

definition scan_detections ::
  "string \<Rightarrow> string list \<Rightarrow> event \<Rightarrow> int \<Rightarrow> ScanReport \<Rightarrow> int io" where
  "scan_detections searching wanted alert hit_code self =
     bind_io (emit (Log INFO searching [])) (\<lambda>_.
     bind_io (lift (dict_getitem self detect_str_key)) (\<lambda>detections.
     if detections \<noteq> JNull then
       bind_io (lift (py_iter detections)) (\<lambda>ds. detection_loop wanted alert hit_code ds)
     else ret 0))"

definition get_alerts_malware :: "ScanReport \<Rightarrow> int io" where
  "get_alerts_malware self =
     scan_detections ''Searching for malware in scan report...'' [type_malware]
       (Log WARNING ''Alert: Malware found'' []) (code_value Malware) self"

definition get_alerts_secrets :: "ScanReport \<Rightarrow> int io" where
  "get_alerts_secrets self =
     scan_detections ''Searching for leaked secrets in scan report...'' [type_secret]
       (Log ERROR ''Alert: Leaked secrets detected'' []) (code_value Secrets) self"

definition get_alerts_misconfig :: "ScanReport \<Rightarrow> int io" where
  "get_alerts_misconfig self =
     scan_detections ''Searching for misconfigurations in scan report...''
       [type_misconfig, type_cis]
       (Log WARNING ''Alert: Misconfiguration found'' []) (code_value Success) self"

section \<open>Authentication and polling\<close>

text \<open>
  An HTTP response as the program reads it: the status code and what \<^verbatim>\<open>resp.json()\<close>
  gives (an exception when the body does not decode). The decoded body of a report
  response is taken to be a JSON object, of which \<^verbatim>\<open>ScanReport(resp.json())\<close> is a
  copy; what \<^verbatim>\<open>dict(...)\<close> does with a decoded body of another shape is not modelled.
\<close>

record 'a response =
  status_code :: int
  json_result :: "error + 'a"

text \<open>\<^verbatim>\<open>'{}'.format(n)\<close> for an int: its decimal digits.\<close>

fun str_nat :: "nat \<Rightarrow> string" where
  "str_nat n =
     (if n < 10 then [char_of (48 + n)] else str_nat (n div 10) @ [char_of (48 + n mod 10)])"

declare str_nat.simps [simp del]

definition str_int :: "int \<Rightarrow> string" where
  "str_int i = (if i < 0 then CHR ''-'' # str_nat (nat (- i)) else str_nat (nat i))"

definition registry_url_map :: "(string \<times> string) list" where
  "registry_url_map =
     [(''us-1'', ''container-upload.us-1.crowdstrike.com''),
      (''us-2'', ''container-upload.us-2.crowdstrike.com''),
      (''eu-1'', ''container-upload.eu-1.crowdstrike.com''),
      (''us-gov-1'', ''container-upload.laggar.gcw.crowdstrike.com'')]"

definition auth_url_map :: "(string \<times> string) list" where
  "auth_url_map =
     [(''us-1'', ''https://api.crowdstrike.com''),
      (''us-2'', ''https://api.us-2.crowdstrike.com''),
      (''eu-1'', ''https://api.eu-1.crowdstrike.com''),
      (''us-gov-1'', ''https://api.laggar.gcw.crowdstrike.com'')]"

definition url_lookup :: "(string \<times> string) list \<Rightarrow> string \<Rightarrow> error + string" where
  "url_lookup m k = (case map_of m k of None \<Rightarrow> Inl (KeyError k) | Some v \<Rightarrow> Inr v)"

text \<open>The fields of \<^verbatim>\<open>ScanImage\<close> the modelled methods read.\<close>

record ScanImage =
  client_id :: string
  client_secret :: string
  repo :: string
  tag :: string
  server_domain :: string
  auth_url :: string

definition ScanImage_init ::
  "string \<Rightarrow> string \<Rightarrow> string \<Rightarrow> string \<Rightarrow> string \<Rightarrow> error + ScanImage" where
  "ScanImage_init cid secret rp tg cloud =
     bind_res (url_lookup registry_url_map cloud) (\<lambda>domain.
     bind_res (url_lookup auth_url_map cloud) (\<lambda>auth.
     Inr \<lparr>client_id = cid, client_secret = secret, repo = rp, tag = tg,
          server_domain = domain, auth_url = auth @ ''/oauth2/token''\<rparr>))"

text \<open>
  \<^verbatim>\<open>get_api_token\<close>. \<open>post_result\<close> is what \<^verbatim>\<open>requests.post\<close> does: it raises or
  returns a response.
\<close>

definition get_api_token :: "ScanImage \<Rightarrow> error + json response \<Rightarrow> json io" where
  "get_api_token self post_result =
     bind_io (emit (Log INFO ''Authenticating with CrowdStrike Falcon API'' [])) (\<lambda>_.
     let post_url = auth_url self;
         payload = [(''client_id'', client_id self), (''client_secret'', client_secret self)]
     in
     bind_io (emit (HttpPost post_url payload)) (\<lambda>_.
     bind_io (lift post_result) (\<lambda>resp.
     if status_code resp = 200 \<or> status_code resp = 201 then
       lift (bind_res (json_result resp) (\<lambda>body. py_getitem body ''access_token''))
     else raise (APIError (''POST '' @ post_url @ '' '' @ str_int (status_code resp))))))"

text \<open>\<^verbatim>\<open>BearerAuth.__call__\<close>: \<^verbatim>\<open>"Bearer " + self.token\<close> needs a str.\<close>

fun BearerAuth_call :: "json \<Rightarrow> error + string" where
  "BearerAuth_call (JStr token) = Inr (''Bearer '' @ token)"
| "BearerAuth_call _ = Inl TypeError"

text \<open>
  The loop of \<^verbatim>\<open>get_scanreport\<close> over \<^verbatim>\<open>range(retry_count)\<close>. It ends by the
  \<^verbatim>\<open>return\<close> in its body or by running out of counts; the local variable \<^verbatim>\<open>resp\<close>
  is unbound until the first turn assigns it. \<open>get count\<close> is what \<^verbatim>\<open>requests.get\<close>
  does at the request of turn \<open>count\<close>.
\<close>

datatype poll_exit = Return ScanReport | Exhausted "ScanReport response option"

definition py_range :: "int \<Rightarrow> nat list" where
  "py_range n = [0 ..< nat n]"

fun poll_loop ::
  "string \<Rightarrow> int \<Rightarrow> json \<Rightarrow> (nat \<Rightarrow> error + ScanReport response) \<Rightarrow> nat list \<Rightarrow>
   ScanReport response option \<Rightarrow> poll_exit io" where
  "poll_loop get_url sleep_seconds token get [] resp = ret (Exhausted resp)"
| "poll_loop get_url sleep_seconds token get (count # counts) resp =
     bind_io (emit (Sleep sleep_seconds)) (\<lambda>_.
     bind_io (emit (Log DEBUG ''retry count %s'' [JInt (int count)])) (\<lambda>_.
     bind_io (lift (BearerAuth_call token)) (\<lambda>authorization.
     bind_io (emit (HttpGet get_url authorization)) (\<lambda>_.
     bind_io (lift (get count)) (\<lambda>resp'.
     if status_code resp' \<noteq> 200 then
       bind_io (emit (Log INFO ''Scan report is not ready yet, retrying in %s seconds''
                        [JInt sleep_seconds])) (\<lambda>_.
       poll_loop get_url sleep_seconds token get counts (Some resp'))
     else bind_io (lift (json_result resp')) (\<lambda>body. ret (Return body)))))))"

definition get_url_of :: "ScanImage \<Rightarrow> string" where
  "get_url_of self =
     (let scanreport_endpoint = ''/reports?'';
          server_url = ''https://'' @ server_domain self;
          scanreport_url = server_url @ scanreport_endpoint
      in scanreport_url @ ''repository='' @ repo self @ ''&tag='' @ tag self)"

definition get_scanreport ::
  "ScanImage \<Rightarrow> json \<Rightarrow> int \<Rightarrow> (nat \<Rightarrow> error + ScanReport response) \<Rightarrow> ScanReport io" where
  "get_scanreport self token retry_count get =
     bind_io (emit (Log INFO ''Downloading Image Scan Report'' [])) (\<lambda>_.
     let sleep_seconds = 10; get_url = get_url_of self in
     bind_io (poll_loop get_url sleep_seconds token get (py_range retry_count) None) (\<lambda>ex.
     case ex of
       Return report \<Rightarrow> ret report
     | Exhausted resp \<Rightarrow>
         bind_io (emit (Log ERROR ''Retries exhausted'' [])) (\<lambda>_.
         case resp of
           None \<Rightarrow> raise UnboundLocalError
         | Some r \<Rightarrow> raise (APIError (''GET '' @ get_url @ '' '' @ str_int (status_code r))))))"

section \<open>Serialisation of a report\<close>

text \<open>
  Modelled from the spec: the serialiser and the reader of JSON text. The repository
  calls \<^verbatim>\<open>json.dumps(self, indent=4)\<close> of Python's standard library in
  \<^verbatim>\<open>ScanReport.export\<close> and holds no code that loads an exported file again; the
  specification speaks of a report "serialized as indented JSON" and of "re-loading" it.
  The definitions of this section follow the documentation of the \<^verbatim>\<open>json\<close> module
  (\<^verbatim>\<open>dumps\<close> with \<^verbatim>\<open>indent=4\<close> and the other parameters at their defaults,
  \<^verbatim>\<open>load\<close> with its defaults), on the values of type \<open>json\<close>:
  \<^item> a char stands for the code point of its number; a char outside the printable ASCII
    range is written as the escape \<^verbatim>\<open>\u00XX\<close>, and an escape of a code point above
    255 has no value in the model;
  \<^item> a float \<open>JFloat m e\<close> stands for the decimal \<open>m\<close> times ten to the \<open>e\<close> and is
    written as \<open>m\<close>, the letter \<^verbatim>\<open>e\<close> and \<open>e\<close>, one of the forms the reader takes for
    that decimal. Python writes the shortest decimal that reads back as the same float and
    reads a decimal as the nearest float; this rounding, the infinities and NaN are not
    modelled.
\<close>

subsection \<open>The serialiser\<close>

abbreviation dquote :: char where "dquote \<equiv> CHR 0x22"
abbreviation backslash :: char where "backslash \<equiv> CHR 0x5C"
abbreviation newline :: char where "newline \<equiv> CHR 0x0A"

text \<open>
  Modelled from the spec: a string between double quotes, with \<^verbatim>\<open>ensure_ascii\<close> at its
  default: the quote, the backslash and the control characters with a short escape are
  written with it, the other printable ASCII characters as they are, and every other
  character as \<^verbatim>\<open>\u\<close> and four lower-case hexadecimal digits.
\<close>

definition hex_digit :: "nat \<Rightarrow> char" where
  "hex_digit n = (if n < 10 then char_of (48 + n) else char_of (87 + n))"

definition escape_char :: "char \<Rightarrow> string" where
  "escape_char c =
     (if c = dquote then [backslash, dquote]
      else if c = backslash then [backslash, backslash]
      else if c = newline then [backslash, CHR ''n'']
      else if c = CHR 0x0D then [backslash, CHR ''r'']
      else if c = CHR 0x09 then [backslash, CHR ''t'']
      else if c = CHR 0x08 then [backslash, CHR ''b'']
      else if c = CHR 0x0C then [backslash, CHR ''f'']
      else if 32 \<le> (of_char c :: nat) \<and> (of_char c :: nat) \<le> 126 then [c]
      else [backslash, CHR ''u'', CHR ''0'', CHR ''0'',
            hex_digit ((of_char c :: nat) div 16), hex_digit ((of_char c :: nat) mod 16)])"

definition encode_string :: "string \<Rightarrow> string" where
  "encode_string s = dquote # concat (map escape_char s) @ [dquote]"

text \<open>
  Modelled from the spec: with \<^verbatim>\<open>indent=4\<close> every item of a non-empty list or dict
  stands on a line of its own, indented by four spaces per level of nesting; the items
  are separated by a comma, a key and its value by a colon and a space; an empty list is
  \<^verbatim>\<open>[]\<close> and an empty dict \<^verbatim>\<open>{}\<close>. \<open>join\<close> is \<^verbatim>\<open>str.join\<close>.
\<close>

definition newline_indent :: "nat \<Rightarrow> string" where
  "newline_indent level = newline # replicate (4 * level) CHR '' ''"

fun join :: "string \<Rightarrow> string list \<Rightarrow> string" where
  "join sep [] = []"
| "join sep [x] = x"
| "join sep (x # y # ys) = x @ sep @ join sep (y # ys)"

fun dumps :: "nat \<Rightarrow> json \<Rightarrow> string" where
  "dumps level JNull = ''null''"
| "dumps level (JBool b) = (if b then ''true'' else ''false'')"
| "dumps level (JInt i) = str_int i"
| "dumps level (JFloat m e) = str_int m @ ''e'' @ str_int e"
| "dumps level (JStr s) = encode_string s"
| "dumps level (JList vs) =
     (if vs = [] then ''[]''
      else ''['' @ newline_indent (Suc level) @
           join ('','' @ newline_indent (Suc level)) (map (dumps (Suc level)) vs) @
           newline_indent level @ '']'')"
| "dumps level (JDict kvs) =
     (if kvs = [] then ''{}''
      else ''{'' @ newline_indent (Suc level) @
           join ('','' @ newline_indent (Suc level))
             (map (\<lambda>kv. encode_string (fst kv) @ '': '' @ dumps (Suc level) (snd kv)) kvs) @
           newline_indent level @ ''}'')"

text \<open>Modelled from the spec: \<^verbatim>\<open>json.dumps(self, indent=4)\<close> of a report.\<close>

definition json_dumps :: "ScanReport \<Rightarrow> string" where
  "json_dumps self = dumps 0 (JDict self)"

subsection \<open>The reader\<close>

text \<open>
  Modelled from the spec: the reader skips blanks, tabs, line feeds and carriage returns
  around values and punctuation.
\<close>

definition is_ws :: "char \<Rightarrow> bool" where
  "is_ws c = (c = CHR '' '' \<or> c = CHR 0x09 \<or> c = newline \<or> c = CHR 0x0D)"

fun skip_ws :: "string \<Rightarrow> string" where
  "skip_ws [] = []"
| "skip_ws (c # cs) = (if is_ws c then skip_ws cs else c # cs)"

text \<open>
  Modelled from the spec: the body of a string up to its closing quote, with what follows
  it. A backslash starts an escape: \<^verbatim>\<open>u\<close> with four hexadecimal digits of either case,
  or one of the short escapes; a control character inside a string is an error.
\<close>

definition hex_val :: "char \<Rightarrow> nat option" where
  "hex_val c =
     (let n = (of_char c :: nat) in
      if 48 \<le> n \<and> n \<le> 57 then Some (n - 48)
      else if 97 \<le> n \<and> n \<le> 102 then Some (n - 87)
      else if 65 \<le> n \<and> n \<le> 70 then Some (n - 55)
      else None)"

definition hex4 :: "char \<Rightarrow> char \<Rightarrow> char \<Rightarrow> char \<Rightarrow> nat option" where
  "hex4 a b c d =
     (case (hex_val a, hex_val b, hex_val c, hex_val d) of
        (Some w, Some x, Some y, Some z) \<Rightarrow> Some (((w * 16 + x) * 16 + y) * 16 + z)
      | _ \<Rightarrow> None)"

definition unescape :: "char \<Rightarrow> char option" where
  "unescape e =
     (if e = dquote then Some dquote
      else if e = backslash then Some backslash
      else if e = CHR ''/'' then Some CHR ''/''
      else if e = CHR ''b'' then Some (CHR 0x08)
      else if e = CHR ''f'' then Some (CHR 0x0C)
      else if e = CHR ''n'' then Some newline
      else if e = CHR ''r'' then Some (CHR 0x0D)
      else if e = CHR ''t'' then Some (CHR 0x09)
      else None)"

definition cons_result :: "char \<Rightarrow> (string \<times> string) option \<Rightarrow> (string \<times> string) option" where
  "cons_result c r = (case r of None \<Rightarrow> None | Some (s, rest) \<Rightarrow> Some (c # s, rest))"

fun scanstring :: "string \<Rightarrow> (string \<times> string) option" where
  "scanstring [] = None"
| "scanstring (c # cs) =
     (if c = dquote then Some ([], cs)
      else if c = backslash then
        (case cs of
           [] \<Rightarrow> None
         | e # cs' \<Rightarrow>
             if e = CHR ''u'' then
               (case cs' of
                  h1 # h2 # h3 # h4 # cs'' \<Rightarrow>
                    (case hex4 h1 h2 h3 h4 of
                       None \<Rightarrow> None
                     | Some n \<Rightarrow> if n < 256 then cons_result (char_of n) (scanstring cs'') else None)
                | _ \<Rightarrow> None)
             else
               (case unescape e of
                  None \<Rightarrow> None
                | Some ch \<Rightarrow> cons_result ch (scanstring cs')))
      else if (of_char c :: nat) < 32 then None
      else cons_result c (scanstring cs))"

text \<open>
  Modelled from the spec: a number is an optional minus sign and an integer part (a
  single \<^verbatim>\<open>0\<close>, or digits that do not start with \<^verbatim>\<open>0\<close>), then an optional
  fraction (a point and digits) and an optional exponent (\<^verbatim>\<open>e\<close> or \<^verbatim>\<open>E\<close>, an
  optional sign and digits). Without fraction and exponent it is an int, else a float.
\<close>

definition is_digit :: "char \<Rightarrow> bool" where
  "is_digit c = (48 \<le> (of_char c :: nat) \<and> (of_char c :: nat) \<le> 57)"

definition nat_of_digits :: "string \<Rightarrow> nat" where
  "nat_of_digits ds = foldl (\<lambda>a c. 10 * a + ((of_char c :: nat) - 48)) 0 ds"

definition scan_sign :: "string \<Rightarrow> bool \<times> string" where
  "scan_sign s = (case s of [] \<Rightarrow> (False, s) | c # cs \<Rightarrow> if c = CHR ''-'' then (True, cs) else (False, s))"

definition scan_int_part :: "string \<Rightarrow> (nat \<times> string) option" where
  "scan_int_part s =
     (case s of
        [] \<Rightarrow> None
      | c # cs \<Rightarrow>
          if c = CHR ''0'' then Some (0, cs)
          else if is_digit c then Some (nat_of_digits (takeWhile is_digit s), dropWhile is_digit s)
          else None)"

definition scan_frac :: "string \<Rightarrow> string \<times> string" where
  "scan_frac s =
     (case s of
        [] \<Rightarrow> ([], s)
      | c # cs \<Rightarrow>
          if c = CHR ''.'' \<and> takeWhile is_digit cs \<noteq> []
          then (takeWhile is_digit cs, dropWhile is_digit cs) else ([], s))"

definition scan_exp :: "string \<Rightarrow> int option \<times> string" where
  "scan_exp s =
     (case s of
        [] \<Rightarrow> (None, s)
      | c # cs \<Rightarrow>
          if c = CHR ''e'' \<or> c = CHR ''E'' then
            (let (neg, ds) =
                   (case cs of
                      [] \<Rightarrow> (False, cs)
                    | d # cs' \<Rightarrow>
                        if d = CHR ''-'' then (True, cs')
                        else if d = CHR ''+'' then (False, cs') else (False, cs))
             in if takeWhile is_digit ds \<noteq> []
                then (Some ((if neg then - 1 else 1) * int (nat_of_digits (takeWhile is_digit ds))),
                      dropWhile is_digit ds)
                else (None, s))
          else (None, s))"

definition parse_number :: "string \<Rightarrow> (json \<times> string) option" where
  "parse_number s =
     (let (neg, s1) = scan_sign s; sgn = (if neg then - 1 else 1 :: int) in
      case scan_int_part s1 of
        None \<Rightarrow> None
      | Some (n, s2) \<Rightarrow>
          (let (frac, s3) = scan_frac s2; (ex, s4) = scan_exp s3 in
           if frac = [] \<and> ex = None then Some (JInt (sgn * int n), s4)
           else Some (JFloat (sgn * (int n * 10 ^ length frac + int (nat_of_digits frac)))
                        ((case ex of None \<Rightarrow> 0 | Some e \<Rightarrow> e) - int (length frac)), s4)))"

text \<open>
  Modelled from the spec: a dict is built from the pairs of an object in their order;
  when a name is repeated the last value is kept, at the place of the first.
\<close>

fun dict_set :: "(string \<times> json) list \<Rightarrow> string \<Rightarrow> json \<Rightarrow> (string \<times> json) list" where
  "dict_set [] k v = [(k, v)]"
| "dict_set (p # d) k v = (if fst p = k then (k, v) # d else p # dict_set d k v)"

definition dict_of_pairs :: "(string \<times> json) list \<Rightarrow> (string \<times> json) list" where
  "dict_of_pairs ps = foldl (\<lambda>d kv. dict_set d (fst kv) (snd kv)) [] ps"

text \<open>
  Modelled from the spec: a value, the items of a list after its first bracket and the
  members of an object after its first brace, each with the text that follows. The first
  argument bounds the number of nested calls, so that the functions are total;
  \<open>json_loads\<close> starts with the length of the text, which is enough for every text the
  serialiser writes (a part of what is proved of them below). \<^verbatim>\<open>NaN\<close>,
  \<^verbatim>\<open>Infinity\<close> and \<^verbatim>\<open>-Infinity\<close>, which Python also reads, have no value in the
  model.
\<close>

definition strip_prefix :: "string \<Rightarrow> string \<Rightarrow> string option" where
  "strip_prefix p s = (if take (length p) s = p then Some (drop (length p) s) else None)"

fun parse_value :: "nat \<Rightarrow> string \<Rightarrow> (json \<times> string) option"
  and parse_elems :: "nat \<Rightarrow> string \<Rightarrow> (json list \<times> string) option"
  and parse_members :: "nat \<Rightarrow> string \<Rightarrow> ((string \<times> json) list \<times> string) option" where
  "parse_value 0 s = None"
| "parse_value (Suc n) s =
     (case s of
        [] \<Rightarrow> None
      | c # cs \<Rightarrow>
          if c = dquote then
            (case scanstring cs of None \<Rightarrow> None | Some (x, rest) \<Rightarrow> Some (JStr x, rest))
          else if c = CHR ''{'' then
            (case skip_ws cs of
               [] \<Rightarrow> None
             | d # ds \<Rightarrow>
                 if d = CHR ''}'' then Some (JDict [], ds)
                 else (case parse_members n (d # ds) of
                         None \<Rightarrow> None
                       | Some (ps, rest) \<Rightarrow> Some (JDict (dict_of_pairs ps), rest)))
          else if c = CHR ''['' then
            (case skip_ws cs of
               [] \<Rightarrow> None
             | d # ds \<Rightarrow>
                 if d = CHR '']'' then Some (JList [], ds)
                 else (case parse_elems n (d # ds) of
                         None \<Rightarrow> None
                       | Some (vs, rest) \<Rightarrow> Some (JList vs, rest)))
          else
            (case strip_prefix ''null'' s of
               Some rest \<Rightarrow> Some (JNull, rest)
             | None \<Rightarrow>
                 (case strip_prefix ''true'' s of
                    Some rest \<Rightarrow> Some (JBool True, rest)
                  | None \<Rightarrow>
                      (case strip_prefix ''false'' s of
                         Some rest \<Rightarrow> Some (JBool False, rest)
                       | None \<Rightarrow> parse_number s))))"
| "parse_elems 0 s = None"
| "parse_elems (Suc n) s =
     (case parse_value n s of
        None \<Rightarrow> None
      | Some (v, rest) \<Rightarrow>
          (case skip_ws rest of
             [] \<Rightarrow> None
           | d # ds \<Rightarrow>
               if d = CHR '','' then
                 (case parse_elems n (skip_ws ds) of
                    None \<Rightarrow> None
                  | Some (vs, rest') \<Rightarrow> Some (v # vs, rest'))
               else if d = CHR '']'' then Some ([v], ds)
               else None))"
| "parse_members 0 s = None"
| "parse_members (Suc n) s =
     (case s of
        [] \<Rightarrow> None
      | c # cs \<Rightarrow>
          if c = dquote then
            (case scanstring cs of
               None \<Rightarrow> None
             | Some (k, r1) \<Rightarrow>
                 (case skip_ws r1 of
                    [] \<Rightarrow> None
                  | d # r2 \<Rightarrow>
                      if d = CHR '':'' then
                        (case parse_value n (skip_ws r2) of
                           None \<Rightarrow> None
                         | Some (v, r3) \<Rightarrow>
                             (case skip_ws r3 of
                                [] \<Rightarrow> None
                              | d' # r4 \<Rightarrow>
                                  if d' = CHR '','' then
                                    (case parse_members n (skip_ws r4) of
                                       None \<Rightarrow> None
                                     | Some (ps, rest) \<Rightarrow> Some ((k, v) # ps, rest))
                                  else if d' = CHR ''}'' then Some ([(k, v)], r4)
                                  else None))
                      else None))
          else None)"

text \<open>
  Modelled from the spec: \<^verbatim>\<open>json.loads\<close>: one value, with nothing but white space before
  and after it.
\<close>

definition json_loads :: "string \<Rightarrow> json option" where
  "json_loads s =
     (case parse_value (length s) (skip_ws s) of
        None \<Rightarrow> None
      | Some (v, rest) \<Rightarrow> if skip_ws rest = [] then Some v else None)"

text \<open>
  The association lists of a value hold each key once, as every dict of Python does.
\<close>

fun keys_distinct :: "json \<Rightarrow> bool" where
  "keys_distinct (JList vs) = list_all keys_distinct vs"
| "keys_distinct (JDict kvs) =
     (distinct (map fst kvs) \<and> list_all (\<lambda>kv. keys_distinct (snd kv)) kvs)"
| "keys_distinct _ = True"

text \<open>
  For the proofs: a text in front of which a number ends, a text that starts like a value,
  and the text of one member of a dict.
\<close>

definition number_end :: "string \<Rightarrow> bool" where
  "number_end rest =
     (case rest of
        [] \<Rightarrow> True
      | c # cs \<Rightarrow> \<not> is_digit c \<and> c \<noteq> CHR ''.'' \<and> c \<noteq> CHR ''e'' \<and> c \<noteq> CHR ''E'')"

definition starts_value :: "string \<Rightarrow> bool" where
  "starts_value s =
     (case s of [] \<Rightarrow> False | c # cs \<Rightarrow> \<not> is_ws c \<and> c \<noteq> CHR '']'' \<and> c \<noteq> CHR ''}'')"

definition member_text :: "nat \<Rightarrow> string \<times> json \<Rightarrow> string" where
  "member_text level kv = encode_string (fst kv) @ '': '' @ dumps level (snd kv)"

section \<open>The run\<close>

text \<open>
  What a run meets outside the modelled code: the parsed arguments, the client secret,
  what \<^verbatim>\<open>int(score)\<close> gives, whether \<^verbatim>\<open>docker.from_env()\<close>, the tag, login and push
  steps and the write of the exported file raise, and the answers of the two endpoints.
\<close>

record world =
  arg_client_id :: string
  arg_repo :: string
  arg_tag :: string
  arg_cloud :: string
  arg_score :: string
  arg_json_report :: "string option"
  arg_retry_count :: int
  env_client_secret :: string
  int_score :: "error + int"
  docker_from_env :: "error option"
  container_steps :: "error option"
  auth_response :: "error + json response"
  report_response :: "nat \<Rightarrow> error + ScanReport response"
  export_result :: "error option"

definition may_raise :: "error option \<Rightarrow> unit io" where
  "may_raise r = (case r of None \<Rightarrow> ret () | Some e \<Rightarrow> raise e)"

text \<open>
  \<^verbatim>\<open>ScanReport.export\<close>: \<open>written\<close> is whether opening and writing the file raises;
  the text written is \<^verbatim>\<open>json.dumps(self, indent=4)\<close>.
\<close>

definition export :: "ScanReport \<Rightarrow> string \<Rightarrow> error option \<Rightarrow> unit io" where
  "export self filename written =
     bind_io (may_raise written) (\<lambda>_. emit (WriteFile filename (json_dumps self)))"

text \<open>
  Modelled from the spec: re-loading an exported file. The repository has no such code;
  the file holds the text of the last write to its name among the events of the run, and
  re-loading it is \<^verbatim>\<open>json.load\<close> on that text.
\<close>

fun file_after :: "event list \<Rightarrow> string \<Rightarrow> string option" where
  "file_after [] name = None"
| "file_after (ev # evs) name =
     (case file_after evs name of
        Some text \<Rightarrow> Some text
      | None \<Rightarrow>
          (case ev of
             WriteFile f text \<Rightarrow> if f = name then Some text else None
           | _ \<Rightarrow> None))"

definition reload :: "event list \<Rightarrow> string \<Rightarrow> json option" where
  "reload evs name =
     (case file_after evs name of None \<Rightarrow> None | Some text \<Rightarrow> json_loads text)"

text \<open>The end of the two format strings of the decision: \<^verbatim>\<open>'%s' out of '%s'\<close>.\<close>

definition out_of :: string where
  "out_of = [CHR 0x27] @ ''%s'' @ [CHR 0x27] @ '' out of '' @ [CHR 0x27] @ ''%s'' @ [CHR 0x27]"

text \<open>
  Lines 376 to 394 of \<^verbatim>\<open>main\<close>: the four scans, then the decision. The result is the
  status whose value goes to \<^verbatim>\<open>sys.exit\<close>.
\<close>

definition evaluate_and_decide :: "world \<Rightarrow> ScanReport \<Rightarrow> ScanStatusCode io" where
  "evaluate_and_decide w scan_report =
     bind_io (get_alerts_vuln scan_report) (\<lambda>f_vuln_score.
     bind_io (get_alerts_secrets scan_report) (\<lambda>f_secrets.
     bind_io (get_alerts_malware scan_report) (\<lambda>f_malware.
     bind_io (get_alerts_misconfig scan_report) (\<lambda>_.
     if f_secrets = code_value Secrets then
       bind_io (emit (Log ERROR ''Exiting: Secrets found in container image'' []))
         (\<lambda>_. ret Secrets)
     else if f_malware = code_value Malware then
       bind_io (emit (Log ERROR ''Exiting: Malware found in container image'' []))
         (\<lambda>_. ret Malware)
     else
       bind_io (lift (int_score w)) (\<lambda>threshold.
       if f_vuln_score \<ge> threshold then
         bind_io (emit (Log ERROR (''Exiting: Vulnerability score threshold exceeded: '' @ out_of)
                          [JInt f_vuln_score, JStr (arg_score w)]))
           (\<lambda>_. ret Vulnerability)
       else
         bind_io (emit (Log INFO (''Vulnerability score threshold not met: '' @ out_of)
                          [JInt f_vuln_score, JStr (arg_score w)]))
           (\<lambda>_. ret Success))))))"

text \<open>
  Lines 361 to 375 of \<^verbatim>\<open>main\<close>, after \<^verbatim>\<open>parse_args\<close> has returned: the steps
  that end with the report in hand (and exported, when a file name is given).
\<close>

definition obtain_report :: "world \<Rightarrow> ScanReport io" where
  "obtain_report w =
     bind_io (may_raise (docker_from_env w)) (\<lambda>_.
     bind_io (lift (ScanImage_init (arg_client_id w) (env_client_secret w)
                      (arg_repo w) (arg_tag w) (arg_cloud w))) (\<lambda>scan_image.
     bind_io (may_raise (container_steps w)) (\<lambda>_.
     bind_io (get_api_token scan_image (auth_response w)) (\<lambda>token.
     bind_io (get_scanreport scan_image token (arg_retry_count w) (report_response w))
       (\<lambda>scan_report.
     bind_io (case arg_json_report w of
                None \<Rightarrow> ret ()
              | Some json_report \<Rightarrow>
                  if json_report \<noteq> [] then export scan_report json_report (export_result w)
                  else ret ()) (\<lambda>_.
     ret scan_report))))))"

text \<open>The body of the \<^verbatim>\<open>try\<close> of \<^verbatim>\<open>main\<close>.\<close>

definition main_try :: "world \<Rightarrow> ScanStatusCode io" where
  "main_try w = bind_io (obtain_report w) (\<lambda>scan_report. evaluate_and_decide w scan_report)"

text \<open>
  \<^verbatim>\<open>main\<close>: the events of the run and the exit code of the process. \<^verbatim>\<open>sys.exit\<close>
  raises \<^verbatim>\<open>SystemExit\<close>, which neither handler catches; every exception of the body
  is caught by one of the two handlers.
\<close>

definition main :: "world \<Rightarrow> event list \<times> int" where
  "main w =
     (case main_try w of
        (t, Inr status) \<Rightarrow> (t, code_value status)
      | (t, Inl e) \<Rightarrow>
          (case e of
             APIError s \<Rightarrow> (t @ [Log ERROR ''Unable to scan'' []], code_value ScriptFailure)
           | _ \<Rightarrow> (t @ [Log ERROR ''Unknown error'' []], code_value ScriptFailure)))"

section \<open>The specification's notions, as functions\<close>

text \<open>
  The definitions of this section follow the words of the specification, not the code;
  the theorems below compare the two.
\<close>

subsection \<open>Severity and score\<close>

text \<open>The details of a vulnerability: the \<^verbatim>\<open>Details\<close> field, an empty mapping when absent.\<close>

definition details_of :: "(string \<times> json) list \<Rightarrow> json" where
  "details_of vuln = (case map_of vuln ''Details'' of None \<Rightarrow> JDict [] | Some d \<Rightarrow> d)"

text \<open>
  The severity under a CVSS score field, if present: the field is a mapping that holds a
  \<^verbatim>\<open>severity\<close> other than null.
\<close>

definition severity_under :: "(string \<times> json) list \<Rightarrow> string \<Rightarrow> json option" where
  "severity_under details k =
     (case map_of details k of
        Some (JDict score) \<Rightarrow>
          (case map_of score ''severity'' of
             Some s \<Rightarrow> if s = JNull then None else Some s
           | None \<Rightarrow> None)
      | _ \<Rightarrow> None)"

text \<open>
  The resolved severity: under \<^verbatim>\<open>cvss_v3_score\<close>, else under \<^verbatim>\<open>cvss_v2_score\<close>,
  else the flat \<^verbatim>\<open>severity\<close> field, else the empty string; the empty string too
  when the details are not a mapping.
\<close>

definition spec_severity :: "json \<Rightarrow> json" where
  "spec_severity details =
     (case details of
        JDict d \<Rightarrow>
          (case severity_under d ''cvss_v3_score'' of
             Some s \<Rightarrow> s
           | None \<Rightarrow>
               (case severity_under d ''cvss_v2_score'' of
                  Some s \<Rightarrow> s
                | None \<Rightarrow> (case map_of d ''severity'' of Some s \<Rightarrow> s | None \<Rightarrow> JStr '''')))
      | _ \<Rightarrow> JStr '''')"

text \<open>The weight table, on the case-folded severity; anything else weighs 0.\<close>

definition weight_table :: "string \<Rightarrow> int" where
  "weight_table s =
     (if s = ''low'' then 20 else if s = ''medium'' then 100
      else if s = ''high'' then 500 else if s = ''critical'' then 2000 else 0)"

definition severity_weight :: "json \<Rightarrow> int" where
  "severity_weight sev = (case sev of JStr s \<Rightarrow> weight_table (lower s) | _ \<Rightarrow> 0)"

definition record_weight :: "json \<Rightarrow> int" where
  "record_weight v =
     (case v of
        JDict rec \<Rightarrow>
          (case map_of rec ''Vulnerability'' of
             Some (JDict vuln) \<Rightarrow> severity_weight (spec_severity (details_of vuln))
           | _ \<Rightarrow> 0)
      | _ \<Rightarrow> 0)"

definition spec_score :: "json list \<Rightarrow> int" where
  "spec_score vs = sum_list (map record_weight vs)"

subsection \<open>Records of the expected shape\<close>

fun is_str :: "json \<Rightarrow> bool" where
  "is_str (JStr s) = True"
| "is_str _ = False"

definition mapping_or_absent :: "(string \<times> json) list \<Rightarrow> string \<Rightarrow> bool" where
  "mapping_or_absent d k = (case map_of d k of None \<Rightarrow> True | Some x \<Rightarrow> isinstance_dict x)"

text \<open>
  The CVSS score fields of the details are mappings where the code reads them:
  \<^verbatim>\<open>cvss_v3_score\<close> always, \<^verbatim>\<open>cvss_v2_score\<close> when the former gives no severity.
\<close>

definition scores_ok :: "json \<Rightarrow> bool" where
  "scores_ok details =
     (case details of
        JDict d \<Rightarrow>
          mapping_or_absent d ''cvss_v3_score'' \<and>
          (severity_under d ''cvss_v3_score'' = None \<longrightarrow> mapping_or_absent d ''cvss_v2_score'')
      | _ \<Rightarrow> True)"

text \<open>
  A vulnerability record of the expected shape: a mapping with a \<^verbatim>\<open>Vulnerability\<close>
  mapping, whose score fields are mappings, whose resolved severity is a string and whose
  \<^verbatim>\<open>Product\<close>, when present, is a mapping. \<^verbatim>\<open>CVEID\<close>, \<^verbatim>\<open>Details\<close>, the score
  fields, every \<^verbatim>\<open>severity\<close> and \<^verbatim>\<open>Product\<close> may be absent.
\<close>

definition vuln_record_ok :: "json \<Rightarrow> bool" where
  "vuln_record_ok v =
     (case v of
        JDict rec \<Rightarrow>
          (case map_of rec ''Vulnerability'' of
             Some (JDict vuln) \<Rightarrow>
               scores_ok (details_of vuln) \<and> is_str (spec_severity (details_of vuln)) \<and>
               mapping_or_absent vuln ''Product''
           | _ \<Rightarrow> False)
      | _ \<Rightarrow> False)"

text \<open>The Type of a detection record, when it has one that is a string.\<close>

definition type_of_detection :: "json \<Rightarrow> string option" where
  "type_of_detection d =
     (case d of
        JDict rec \<Rightarrow>
          (case map_of rec ''Detection'' of
             Some (JDict det) \<Rightarrow>
               (case map_of det ''Type'' of Some (JStr t) \<Rightarrow> Some t | _ \<Rightarrow> None)
           | _ \<Rightarrow> None)
      | _ \<Rightarrow> None)"

text \<open>A detection whose Type, case-folded, is one of the wanted types.\<close>

definition has_type :: "string list \<Rightarrow> json \<Rightarrow> bool" where
  "has_type wanted d =
     (case type_of_detection d of Some t \<Rightarrow> lower t \<in> set wanted | None \<Rightarrow> False)"

definition misconfig_types :: "string list" where
  "misconfig_types = [''misconfiguration'', ''cis'']"

text \<open>
  A detection record of the expected shape: a mapping whose \<^verbatim>\<open>Detection\<close>, when
  present, is a mapping whose \<^verbatim>\<open>Type\<close>, when present, is a string.
\<close>

definition detection_ok :: "json \<Rightarrow> bool" where
  "detection_ok d =
     (case d of
        JDict rec \<Rightarrow>
          (case map_of rec ''Detection'' of
             None \<Rightarrow> True
           | Some (JDict det) \<Rightarrow>
               (case map_of det ''Type'' of None \<Rightarrow> True | Some t \<Rightarrow> is_str t)
           | Some _ \<Rightarrow> False)
      | _ \<Rightarrow> False)"

text \<open>The two required sections: present, and null or a list of records of the expected shape.\<close>

definition vulnerabilities_ok :: "ScanReport \<Rightarrow> bool" where
  "vulnerabilities_ok r =
     (case map_of r ''Vulnerabilities'' of
        Some JNull \<Rightarrow> True
      | Some (JList vs) \<Rightarrow> list_all vuln_record_ok vs
      | _ \<Rightarrow> False)"

definition detections_ok :: "ScanReport \<Rightarrow> bool" where
  "detections_ok r =
     (case map_of r ''Detections'' of
        Some JNull \<Rightarrow> True
      | Some (JList ds) \<Rightarrow> list_all detection_ok ds
      | _ \<Rightarrow> False)"

subsection \<open>The decision and the poller's events\<close>

text \<open>The decision rule of the orchestrator on the results of the scans: first match wins.\<close>

definition decision :: "int \<Rightarrow> int \<Rightarrow> int \<Rightarrow> error + int \<Rightarrow> error + ScanStatusCode" where
  "decision f_vuln_score f_secrets f_malware threshold =
     (if f_secrets = 3 then Inr Secrets
      else if f_malware = 2 then Inr Malware
      else (case threshold of
              Inl e \<Rightarrow> Inl e
            | Inr t \<Rightarrow> if f_vuln_score \<ge> t then Inr Vulnerability else Inr Success))"

text \<open>
  The events of one attempt of the poller: the wait, the request and, when the answer is
  not 200, the note that the report is not ready.
\<close>

definition ready_turn :: "string \<Rightarrow> int \<Rightarrow> string \<Rightarrow> nat \<Rightarrow> event list" where
  "ready_turn get_url sleep_seconds tk count =
     [Sleep sleep_seconds, Log DEBUG ''retry count %s'' [JInt (int count)],
      HttpGet get_url (''Bearer '' @ tk)]"

definition busy_turn :: "string \<Rightarrow> int \<Rightarrow> string \<Rightarrow> nat \<Rightarrow> event list" where
  "busy_turn get_url sleep_seconds tk count =
     ready_turn get_url sleep_seconds tk count @
     [Log INFO ''Scan report is not ready yet, retrying in %s seconds'' [JInt sleep_seconds]]"

section \<open>Example inputs\<close>

text \<open>
  A run in which every step before the evaluation succeeds and the first poll answers 200
  with the report \<open>r\<close>; the score threshold is 500.
\<close>

definition example_world :: "ScanReport \<Rightarrow> world" where
  "example_world r =
     \<lparr>arg_client_id = ''id'', arg_repo = ''myapp'', arg_tag = ''v1'', arg_cloud = ''us-1'',
      arg_score = ''500'', arg_json_report = None, arg_retry_count = 10,
      env_client_secret = ''pw'', int_score = Inr 500, docker_from_env = None,
      container_steps = None,
      auth_response =
        Inr \<lparr>status_code = 200, json_result = Inr (JDict [(''access_token'', JStr ''tok'')])\<rparr>,
      report_response = (\<lambda>count. Inr \<lparr>status_code = 200, json_result = Inr r\<rparr>),
      export_result = None\<rparr>"

definition example_image :: ScanImage where
  "example_image =
     \<lparr>client_id = ''id'', client_secret = ''pw'', repo = ''myapp'', tag = ''v1'',
      server_domain = ''container-upload.us-1.crowdstrike.com'',
      auth_url = ''https://api.crowdstrike.com/oauth2/token''\<rparr>"

definition detection_of_type :: "json \<Rightarrow> json" where
  "detection_of_type t = JDict [(''Detection'', JDict [(''Type'', t)])]"

definition vulnerability_with :: "(string \<times> json) list \<Rightarrow> json" where
  "vulnerability_with details = JDict [(''Vulnerability'', JDict [(''Details'', JDict details)])]"

definition report_of :: "json list \<Rightarrow> json list \<Rightarrow> ScanReport" where
  "report_of vs ds = [(''Vulnerabilities'', JList vs), (''Detections'', JList ds)]"

text \<open>
  Two lists of detections that differ in one \<^verbatim>\<open>cis\<close> detection only; the last record
  of both has a Type that is not a string.
\<close>

definition detections_with_cis :: "json list" where
  "detections_with_cis =
     [detection_of_type (JStr ''secret''), detection_of_type (JStr ''malware''),
      detection_of_type (JStr ''cis''), detection_of_type (JInt 5)]"

definition detections_without_cis :: "json list" where
  "detections_without_cis =
     [detection_of_type (JStr ''secret''), detection_of_type (JStr ''malware''),
      detection_of_type (JInt 5)]"

text \<open>The example run with an auth endpoint that answers 401.\<close>

definition world_auth_401 :: world where
  "world_auth_401 =
     (example_world (report_of [] []))
       \<lparr>auth_response := Inr \<lparr>status_code = 401, json_result = Inl ValueError\<rparr>\<rparr>"

text \<open>The example run with a retry count of 0.\<close>

definition world_retry_0 :: world where
  "world_retry_0 = (example_world (report_of [] []))\<lparr>arg_retry_count := 0\<rparr>"

text \<open>
  Records outside the expected shape: a vulnerability of severity \<^verbatim>\<open>high\<close> whose
  \<^verbatim>\<open>Product\<close> is a string, a vulnerability whose flat severity is null, details whose
  \<^verbatim>\<open>cvss_v3_score\<close> is null beside a \<^verbatim>\<open>cvss_v2_score\<close> of severity \<^verbatim>\<open>high\<close>, and
  a malware detection behind a detection whose Type is a number.
\<close>

definition vulnerability_high_product_str :: json where
  "vulnerability_high_product_str =
     JDict [(''Vulnerability'',
             JDict [(''Details'', JDict [(''severity'', JStr ''high'')]),
                    (''Product'', JStr ''openssl'')])]"

definition vulnerability_severity_null :: json where
  "vulnerability_severity_null = vulnerability_with [(''severity'', JNull)]"

definition details_v3_null :: "(string \<times> json) list" where
  "details_v3_null =
     [(''cvss_v3_score'', JNull), (''cvss_v2_score'', JDict [(''severity'', JStr ''high'')])]"

definition detections_malware_last :: "json list" where
  "detections_malware_last = [detection_of_type (JInt 5), detection_of_type (JStr ''malware'')]"

text \<open>
  A report with nested lists and dicts, numbers of both kinds, and a string with a quote,
  a backslash, a line feed, a control character and a char outside ASCII.
\<close>

definition example_document :: ScanReport where
  "example_document =
     [(''Vulnerabilities'',
       JList [JDict [(''Vulnerability'',
                      JDict [(''CVEID'', JStr ''CVE-2021-1''),
                             (''Details'', JDict [(''base_score'', JFloat 75 (- 1)),
                                                  (''severity'', JStr ''HIGH'')]),
                             (''Product'', JDict [])])],
              JNull, JBool True, JList []]),
      (''Detections'', JList [JDict [(''Detection'', JDict [(''Type'', JStr ''cis'')])]]),
      (''Count'', JInt (- 12)),
      (''Note'', JStr [CHR 0x22, CHR 0x5C, CHR 0x0A, CHR 0x01, CHR 0xE9, CHR ''a''])]"

section \<open>Auxiliary facts\<close>

lemma bind_io_pair_Inl: "bind_io (t, Inl e) f = (t, Inl e)"
  by (simp add: bind_io_def)

lemma bind_io_pair_Inr: "bind_io (t, Inr x) f = (t @ fst (f x), snd (f x))"
  by (simp add: bind_io_def split: prod.splits)

lemma snd_bind_io: "snd (bind_io m f) = (case snd m of Inl e \<Rightarrow> Inl e | Inr x \<Rightarrow> snd (f x))"
  by (cases m) (auto simp: bind_io_def split: sum.splits prod.splits)

lemma fst_bind_io:
  "fst (bind_io m f) = (case snd m of Inl e \<Rightarrow> fst m | Inr x \<Rightarrow> fst m @ fst (f x))"
  by (cases m) (auto simp: bind_io_def split: sum.splits prod.splits)

lemmas io_simps = ret_def raise_def emit_def lift_def bind_io_pair_Inl bind_io_pair_Inr

(* spec side *)

lemma resolve_severity_spec:
  assumes "scores_ok (details_of vuln)"
  shows "resolve_severity (JDict vuln) = Inr (spec_severity (details_of vuln))"
  using assms
  by (auto simp: resolve_severity_def scores_ok_def spec_severity_def severity_under_def
      mapping_or_absent_def bind_res_def details_of_def
      split: json.splits option.splits if_splits)

lemma isinstance_dict_iff: "isinstance_dict x = (\<exists>d. x = JDict d)"
  by (cases x) simp_all

lemma is_str_iff: "is_str x = (\<exists>s. x = JStr s)"
  by (cases x) simp_all

lemma add_score_weight: "add_score s n = n + weight_table s"
  by (simp add: add_score_def weight_table_def Let_def)

lemma vuln_step_ok:
  assumes "vuln_record_ok v"
  shows "snd (vuln_step v n) = Inr (n + record_weight v)"
proof -
  from assms obtain rec where v: "v = JDict rec"
    by (cases v) (simp_all add: vuln_record_ok_def)
  from assms v obtain x where x: "map_of rec ''Vulnerability'' = Some x"
    by (cases "map_of rec ''Vulnerability''") (simp_all add: vuln_record_ok_def)
  from assms v x obtain vuln where vuln: "x = JDict vuln"
    by (cases x) (simp_all add: vuln_record_ok_def)
  note rec = x [unfolded vuln]
  from assms v rec have sc: "scores_ok (details_of vuln)"
    and str: "is_str (spec_severity (details_of vuln))"
    and prod: "mapping_or_absent vuln ''Product''"
    by (simp_all add: vuln_record_ok_def)
  from str obtain s where s: "spec_severity (details_of vuln) = JStr s"
    by (cases "spec_severity (details_of vuln)") auto
  have sev: "resolve_severity (JDict vuln) = Inr (JStr s)"
    using resolve_severity_spec [OF sc] s by simp
  from prod obtain p
    where p: "(case map_of vuln ''Product'' of None \<Rightarrow> JDict [] | Some x \<Rightarrow> x) = JDict p"
    by (auto simp: mapping_or_absent_def isinstance_dict_iff split: option.splits)
  show ?thesis
    by (simp add: vuln_step_def v rec dict_getitem_def sev p io_simps record_weight_def s
        severity_weight_def add_score_weight)
qed

lemma vuln_loop_ok:
  "list_all vuln_record_ok vs \<Longrightarrow> snd (vuln_loop vs n) = Inr (n + spec_score vs)"
proof (induction vs arbitrary: n)
  case Nil
  then show ?case by (simp add: spec_score_def ret_def)
next
  case (Cons v vs)
  then show ?case
    by (simp add: snd_bind_io vuln_step_ok spec_score_def)
qed

lemma get_alerts_vuln_snd:
  "snd (get_alerts_vuln r) =
     (case map_of r ''Vulnerabilities'' of
        None \<Rightarrow> Inl (KeyError ''Vulnerabilities'')
      | Some x \<Rightarrow> if x = JNull then Inr 0
                  else (case py_iter x of Inl e \<Rightarrow> Inl e | Inr vs \<Rightarrow> snd (vuln_loop vs 0)))"
  by (simp add: get_alerts_vuln_def snd_bind_io vuln_str_key_1_def dict_getitem_def
      io_simps split: option.splits sum.splits)

(* detections *)

lemma detection_type_typed:
  "type_of_detection d = Some t \<Longrightarrow> detection_type d = Inr (lower t)"
  by (auto simp: type_of_detection_def detection_type_def bind_res_def dict_getitem_def
      split: json.splits option.splits)

lemma detection_type_untyped:
  "detection_ok d \<Longrightarrow> type_of_detection d = None \<Longrightarrow> \<exists>k. detection_type d = Inl (KeyError k)"
  by (auto simp: type_of_detection_def detection_type_def bind_res_def dict_getitem_def
      detection_ok_def split: json.splits option.splits)

lemma detection_loop_step_hit:
  "has_type wanted d \<Longrightarrow> detection_loop wanted alert hit (d # ds) = ([alert], Inr hit)"
  by (auto simp: has_type_def io_simps detection_type_typed split: option.splits)

lemma detection_loop_step_typed_miss:
  "type_of_detection d = Some t \<Longrightarrow> lower t \<notin> set wanted \<Longrightarrow>
   detection_loop wanted alert hit (d # ds) = detection_loop wanted alert hit ds"
  by (simp add: detection_type_typed)

lemma detection_loop_step_untyped:
  "detection_ok d \<Longrightarrow> type_of_detection d = None \<Longrightarrow>
   detection_loop wanted alert hit (d # ds) = detection_loop wanted alert hit ds"
  using detection_type_untyped [of d] by auto

lemma detection_loop_ok:
  "list_all detection_ok ds \<Longrightarrow>
   detection_loop wanted alert hit ds =
     (if list_ex (has_type wanted) ds then ([alert], Inr hit) else ([], Inr 0))"
proof (induction ds)
  case Nil
  then show ?case by (simp add: ret_def)
next
  case (Cons d ds)
  show ?case
  proof (cases "type_of_detection d")
    case None
    with Cons show ?thesis
      by (simp add: detection_loop_step_untyped has_type_def del: detection_loop.simps)
  next
    case (Some t)
    with Cons show ?thesis
      by (cases "lower t \<in> set wanted")
         (simp_all add: detection_loop_step_hit detection_loop_step_typed_miss has_type_def
           del: detection_loop.simps)
  qed
qed

lemma detection_loop_drop:
  assumes "set wanted \<inter> set other = {}"
  shows "detection_loop wanted alert hit (filter (\<lambda>d. \<not> has_type other d) ds) =
         detection_loop wanted alert hit ds"
proof (induction ds)
  case Nil
  then show ?case by simp
next
  case (Cons d ds)
  show ?case
  proof (cases "has_type other d")
    case True
    then obtain t where t: "type_of_detection d = Some t" "lower t \<in> set other"
      by (auto simp: has_type_def split: option.splits)
    with assms have "lower t \<notin> set wanted" by auto
    with t True Cons show ?thesis
      by (simp add: detection_loop_step_typed_miss del: detection_loop.simps)
  next
    case False
    with Cons show ?thesis
      by (simp split: sum.splits error.splits)
  qed
qed

lemma scan_detections_eq:
  "scan_detections msg wanted alert hit r =
     (case map_of r ''Detections'' of
        None \<Rightarrow> ([Log INFO msg []], Inl (KeyError ''Detections''))
      | Some x \<Rightarrow>
          if x = JNull then ([Log INFO msg []], Inr 0)
          else (case py_iter x of
                  Inl e \<Rightarrow> ([Log INFO msg []], Inl e)
                | Inr ds \<Rightarrow> (Log INFO msg [] # fst (detection_loop wanted alert hit ds),
                             snd (detection_loop wanted alert hit ds))))"
  by (simp add: scan_detections_def detect_str_key_def dict_getitem_def io_simps
      split: option.splits sum.splits)

lemma snd_main:
  "snd (main w) = (case snd (main_try w) of Inl e \<Rightarrow> 10 | Inr status \<Rightarrow> code_value status)"
  by (cases "main_try w") (auto simp: main_def split: sum.splits error.splits)

lemma snd_main_try:
  "snd (main_try w) =
     (case snd (obtain_report w) of Inl e \<Rightarrow> Inl e | Inr r \<Rightarrow> snd (evaluate_and_decide w r))"
  by (simp add: main_try_def snd_bind_io)

lemma snd_evaluate_and_decide:
  "snd (evaluate_and_decide w r) =
     bind_res (snd (get_alerts_vuln r)) (\<lambda>v.
     bind_res (snd (get_alerts_secrets r)) (\<lambda>s.
     bind_res (snd (get_alerts_malware r)) (\<lambda>m.
     bind_res (snd (get_alerts_misconfig r)) (\<lambda>c.
       decision v s m (int_score w)))))"
  by (simp add: evaluate_and_decide_def snd_bind_io decision_def io_simps bind_res_def
      split: sum.splits)

lemma scan_detections_ok:
  assumes "map_of r ''Detections'' = Some (JList ds)" and "list_all detection_ok ds"
  shows "scan_detections msg wanted alert hit r =
     (if list_ex (has_type wanted) ds then ([Log INFO msg [], alert], Inr hit)
      else ([Log INFO msg []], Inr 0))"
  using assms by (simp add: scan_detections_eq detection_loop_ok)

lemma get_alerts_vuln_cong:
  "map_of r1 ''Vulnerabilities'' = map_of r2 ''Vulnerabilities'' \<Longrightarrow>
   snd (get_alerts_vuln r1) = snd (get_alerts_vuln r2)"
  by (simp add: get_alerts_vuln_snd)

lemma scan_detections_drop:
  assumes "map_of r1 ''Detections'' = Some (JList ds1)"
    and "map_of r2 ''Detections'' = Some (JList ds2)"
    and "filter (\<lambda>d. \<not> has_type other d) ds1 = filter (\<lambda>d. \<not> has_type other d) ds2"
    and "set wanted \<inter> set other = {}"
  shows "scan_detections msg wanted alert hit r1 = scan_detections msg wanted alert hit r2"
proof -
  have "detection_loop wanted alert hit ds1 = detection_loop wanted alert hit ds2"
    using detection_loop_drop [OF assms(4), of alert hit ds1]
      detection_loop_drop [OF assms(4), of alert hit ds2] assms(3) by simp
  then show ?thesis
    using assms(1,2) by (simp add: scan_detections_eq)
qed

lemma misconfig_disjoint:
  "set [type_secret] \<inter> set misconfig_types = {}"
  "set [type_malware] \<inter> set misconfig_types = {}"
  by (simp_all add: type_secret_def type_malware_def misconfig_types_def type_misconfig_def
      type_cis_def)

lemma poll_loop_busy_step:
  "status_code (rs c) \<noteq> 200 \<Longrightarrow>
   poll_loop url s (JStr tk) (\<lambda>i. Inr (rs i)) (c # cs) resp =
     (busy_turn url s tk c @ fst (poll_loop url s (JStr tk) (\<lambda>i. Inr (rs i)) cs (Some (rs c))),
      snd (poll_loop url s (JStr tk) (\<lambda>i. Inr (rs i)) cs (Some (rs c))))"
  by (simp add: io_simps busy_turn_def ready_turn_def)

lemma poll_loop_ready_step:
  "status_code (rs c) = 200 \<Longrightarrow> json_result (rs c) = Inr body \<Longrightarrow>
   poll_loop url s (JStr tk) (\<lambda>i. Inr (rs i)) (c # cs) resp =
     (ready_turn url s tk c, Inr (Return body))"
  by (simp add: io_simps ready_turn_def)

lemma poll_loop_all_busy:
  "list_all (\<lambda>c. status_code (rs c) \<noteq> 200) cs \<Longrightarrow>
   poll_loop url s (JStr tk) (\<lambda>i. Inr (rs i)) cs resp =
     (concat (map (busy_turn url s tk) cs),
      Inr (Exhausted (if cs = [] then resp else Some (rs (last cs)))))"
proof (induction cs arbitrary: resp)
  case Nil
  then show ?case by (simp add: ret_def)
next
  case (Cons c cs)
  then show ?case
    by (simp add: poll_loop_busy_step del: poll_loop.simps)
qed

lemma poll_loop_first_ready:
  assumes "list_all (\<lambda>c. status_code (rs c) \<noteq> 200) pre"
    and "status_code (rs k) = 200" and "json_result (rs k) = Inr body"
  shows "poll_loop url s (JStr tk) (\<lambda>i. Inr (rs i)) (pre @ k # post) resp =
     (concat (map (busy_turn url s tk) pre) @ ready_turn url s tk k, Inr (Return body))"
  using assms(1)
proof (induction pre arbitrary: resp)
  case Nil
  then show ?case using assms(2,3) by (simp add: poll_loop_ready_step del: poll_loop.simps)
next
  case (Cons c cs)
  then show ?case
    by (simp add: poll_loop_busy_step del: poll_loop.simps)
qed

lemma py_range_split: "k < nat n \<Longrightarrow> py_range n = [0 ..< k] @ k # [Suc k ..< nat n]"
  unfolding py_range_def by (metis upt_conv_Cons upt_add_eq_append le_add_diff_inverse less_imp_le_nat zero_le )

lemma get_scanreport_first_200:
  assumes "k < nat retry_count"
    and "\<forall>i<k. status_code (rs i) \<noteq> 200"
    and "status_code (rs k) = 200" and "json_result (rs k) = Inr body"
  shows "get_scanreport self (JStr tk) retry_count (\<lambda>i. Inr (rs i)) =
     (Log INFO ''Downloading Image Scan Report'' []
        # concat (map (busy_turn (get_url_of self) 10 tk) [0 ..< k])
        @ ready_turn (get_url_of self) 10 tk k,
      Inr body)"
proof -
  have pre: "list_all (\<lambda>c. status_code (rs c) \<noteq> 200) [0 ..< k]"
    using assms(2) by (simp add: list_all_iff)
  show ?thesis
    unfolding get_scanreport_def Let_def py_range_split [OF assms(1)]
      poll_loop_first_ready [OF pre assms(3,4)]
    by (simp add: io_simps)
qed

lemma get_scanreport_exhausted:
  assumes "0 < retry_count"
    and "\<forall>i < nat retry_count. status_code (rs i) \<noteq> 200"
  shows "get_scanreport self (JStr tk) retry_count (\<lambda>i. Inr (rs i)) =
     (Log INFO ''Downloading Image Scan Report'' []
        # concat (map (busy_turn (get_url_of self) 10 tk) [0 ..< nat retry_count])
        @ [Log ERROR ''Retries exhausted'' []],
      Inl (APIError (''GET '' @ get_url_of self @ '' '' @
             str_int (status_code (rs (nat retry_count - 1))))))"
proof -
  have busy: "list_all (\<lambda>c. status_code (rs c) \<noteq> 200) (py_range retry_count)"
    using assms(2) by (simp add: list_all_iff py_range_def)
  have ne: "py_range retry_count \<noteq> []" using assms(1) by (simp add: py_range_def)
  have last: "last (py_range retry_count) = nat retry_count - 1"
    using assms(1) by (simp add: py_range_def)
  show ?thesis
    unfolding get_scanreport_def Let_def poll_loop_all_busy [OF busy]
    using ne last by (simp add: io_simps py_range_def)
qed

lemma get_scanreport_no_turn:
  assumes "retry_count \<le> 0"
  shows "get_scanreport self token retry_count get =
     ([Log INFO ''Downloading Image Scan Report'' [], Log ERROR ''Retries exhausted'' []],
      Inl UnboundLocalError)"
  using assms by (simp add: get_scanreport_def py_range_def io_simps)

lemma get_api_token_ok:
  assumes "status_code resp = 200 \<or> status_code resp = 201"
  shows "get_api_token self (Inr resp) =
     ([Log INFO ''Authenticating with CrowdStrike Falcon API'' [],
       HttpPost (auth_url self)
         [(''client_id'', client_id self), (''client_secret'', client_secret self)]],
      bind_res (json_result resp) (\<lambda>body. py_getitem body ''access_token''))"
  using assms by (auto simp add: get_api_token_def io_simps Let_def)

lemma get_api_token_refused:
  assumes "status_code resp \<noteq> 200" and "status_code resp \<noteq> 201"
  shows "get_api_token self (Inr resp) =
     ([Log INFO ''Authenticating with CrowdStrike Falcon API'' [],
       HttpPost (auth_url self)
         [(''client_id'', client_id self), (''client_secret'', client_secret self)]],
      Inl (APIError (''POST '' @ auth_url self @ '' '' @ str_int (status_code resp))))"
  using assms by (simp add: get_api_token_def io_simps Let_def)

lemma obtain_report_steps:
  assumes "docker_from_env w = None"
    and "ScanImage_init (arg_client_id w) (env_client_secret w) (arg_repo w) (arg_tag w)
           (arg_cloud w) = Inr scan_image"
    and "container_steps w = None"
  shows "obtain_report w =
     bind_io (get_api_token scan_image (auth_response w)) (\<lambda>token.
     bind_io (get_scanreport scan_image token (arg_retry_count w) (report_response w))
       (\<lambda>scan_report.
     bind_io (case arg_json_report w of
                None \<Rightarrow> ret ()
              | Some json_report \<Rightarrow>
                  if json_report \<noteq> [] then export scan_report json_report (export_result w)
                  else ret ()) (\<lambda>_.
     ret scan_report)))"
  using assms by (simp add: obtain_report_def may_raise_def io_simps)

lemma main_failure:
  "main_try w = (t, Inl e) \<Longrightarrow>
   main w = (t @ [Log ERROR (case e of APIError s \<Rightarrow> ''Unable to scan'' | _ \<Rightarrow> ''Unknown error'') []], 10)"
  by (simp add: main_def split: error.splits)

lemma obtain_report_example: "snd (obtain_report (example_world r)) = Inr r"
  by (simp add: obtain_report_def example_world_def may_raise_def io_simps ScanImage_init_def
      url_lookup_def registry_url_map_def auth_url_map_def bind_res_def get_api_token_def
      Let_def dict_getitem_def get_scanreport_def py_range_def upt_rec [of 0] snd_bind_io
      split: sum.splits)

lemma detection_type_Inr:
  "detection_type d = Inr t \<Longrightarrow> \<exists>s. type_of_detection d = Some s \<and> lower s = t"
proof -
  assume a: "detection_type d = Inr t"
  then obtain rec where d: "d = JDict rec"
    by (cases d) (simp_all add: detection_type_def bind_res_def)
  from a d obtain x where x: "map_of rec ''Detection'' = Some x"
    by (cases "map_of rec ''Detection''")
       (simp_all add: detection_type_def bind_res_def dict_getitem_def)
  from a d x obtain det where det: "x = JDict det"
    by (cases x) (simp_all add: detection_type_def bind_res_def dict_getitem_def)
  from a d x det obtain y where y: "map_of det ''Type'' = Some y"
    by (cases "map_of det ''Type''")
       (simp_all add: detection_type_def bind_res_def dict_getitem_def)
  from a d x det y obtain s where s: "y = JStr s"
    by (cases y) (simp_all add: detection_type_def bind_res_def dict_getitem_def)
  from a d x det y s show ?thesis
    by (simp add: detection_type_def bind_res_def dict_getitem_def type_of_detection_def)
qed

lemma detection_type_Inl: "detection_type d = Inl e \<Longrightarrow> type_of_detection d = None"
  using detection_type_typed [of d] by (cases "type_of_detection d") auto

lemma detection_loop_returned:
  "snd (detection_loop wanted alert hit ds) = Inr c \<Longrightarrow>
   c = (if list_ex (has_type wanted) ds then hit else 0)"
proof (induction ds)
  case Nil
  then show ?case by (simp add: ret_def)
next
  case (Cons d ds)
  show ?case
  proof (cases "detection_type d")
    case (Inl e)
    then have "\<not> has_type wanted d"
      by (simp add: has_type_def detection_type_Inl)
    with Cons Inl show ?thesis
      by (cases e) (simp_all add: raise_def)
  next
    case (Inr t)
    then obtain s where s: "type_of_detection d = Some s" "lower s = t"
      using detection_type_Inr by blast
    with Cons Inr show ?thesis
      by (cases "t \<in> set wanted") (simp_all add: has_type_def io_simps)
  qed
qed

lemma scan_detections_returned:
  assumes "map_of r ''Detections'' = Some (JList ds)"
    and "\<not> isl (snd (scan_detections msg wanted alert hit r))"
  shows "snd (scan_detections msg wanted alert hit r) =
         Inr (if list_ex (has_type wanted) ds then hit else 0)"
proof -
  from assms(2) obtain c where c: "snd (scan_detections msg wanted alert hit r) = Inr c"
    by (cases "snd (scan_detections msg wanted alert hit r)") auto
  then have "snd (detection_loop wanted alert hit ds) = Inr c"
    using assms(1) by (simp add: scan_detections_eq)
  from detection_loop_returned [OF this] c show ?thesis by simp
qed

lemma has_type_detection_ok: "has_type wanted d \<Longrightarrow> detection_ok d"
  by (auto simp: has_type_def type_of_detection_def detection_ok_def
      split: option.splits json.splits)

lemma has_type_disjoint:
  "has_type other d \<Longrightarrow> set wanted \<inter> set other = {} \<Longrightarrow> \<not> has_type wanted d"
  by (auto simp: has_type_def split: option.splits)

lemma detection_loop_skip_untyped:
  assumes "list_all detection_ok ds"
  shows "detection_loop wanted alert hit (filter (\<lambda>d. type_of_detection d \<noteq> None) ds) =
         detection_loop wanted alert hit ds"
  using assms
proof (induction ds)
  case Nil
  then show ?case by simp
next
  case (Cons d ds)
  show ?case
  proof (cases "type_of_detection d")
    case None
    with Cons show ?thesis
      by (simp add: detection_loop_step_untyped del: detection_loop.simps)
  next
    case (Some t)
    with Cons show ?thesis
      by (simp add: detection_type_typed)
  qed
qed

lemma get_alerts_vuln_total:
  assumes "vulnerabilities_ok r"
  shows "\<exists>score. snd (get_alerts_vuln r) = Inr score"
proof (cases "map_of r ''Vulnerabilities''")
  case None
  with assms show ?thesis by (simp add: vulnerabilities_ok_def)
next
  case (Some x)
  with assms show ?thesis
    by (cases x) (simp_all add: vulnerabilities_ok_def get_alerts_vuln_snd vuln_loop_ok)
qed

lemma scan_detections_total:
  assumes "detections_ok r"
  shows "\<exists>code. snd (scan_detections msg wanted alert hit r) = Inr code"
proof (cases "map_of r ''Detections''")
  case None
  with assms show ?thesis by (simp add: detections_ok_def)
next
  case (Some x)
  with assms show ?thesis
    by (cases x) (simp_all add: detections_ok_def scan_detections_eq detection_loop_ok)
qed

lemma scan_detections_missing_key:
  "map_of r ''Detections'' = None \<Longrightarrow>
   snd (scan_detections msg wanted alert hit r) = Inl (KeyError ''Detections'')"
  by (simp add: scan_detections_eq)

lemma obtain_report_auth_refused:
  assumes "docker_from_env w = None"
    and "ScanImage_init (arg_client_id w) (env_client_secret w) (arg_repo w) (arg_tag w)
           (arg_cloud w) = Inr self"
    and "container_steps w = None"
    and "auth_response w = Inr resp"
    and "status_code resp \<noteq> 200" and "status_code resp \<noteq> 201"
  shows "obtain_report w =
     ([Log INFO ''Authenticating with CrowdStrike Falcon API'' [],
       HttpPost (auth_url self)
         [(''client_id'', client_id self), (''client_secret'', client_secret self)]],
      Inl (APIError (''POST '' @ auth_url self @ '' '' @ str_int (status_code resp))))"
  unfolding obtain_report_steps [OF assms(1,2,3)] assms(4)
    get_api_token_refused [OF assms(5,6)]
  by (simp add: io_simps)

lemma obtain_report_no_turn:
  assumes "docker_from_env w = None"
    and "ScanImage_init (arg_client_id w) (env_client_secret w) (arg_repo w) (arg_tag w)
           (arg_cloud w) = Inr self"
    and "container_steps w = None"
    and "snd (get_api_token self (auth_response w)) = Inr token"
    and "arg_retry_count w \<le> 0"
  shows "obtain_report w =
     (fst (get_api_token self (auth_response w)) @
        [Log INFO ''Downloading Image Scan Report'' [], Log ERROR ''Retries exhausted'' []],
      Inl UnboundLocalError)"
proof -
  obtain t where t: "get_api_token self (auth_response w) = (t, Inr token)"
    using assms(4) by (cases "get_api_token self (auth_response w)") simp
  show ?thesis
    unfolding obtain_report_steps [OF assms(1,2,3)] t
    by (simp add: io_simps get_scanreport_no_turn [OF assms(5)])
qed

lemma main_of_obtain_failure:
  assumes "obtain_report w = (t, Inl e)"
  shows "main w =
     (t @ [Log ERROR (case e of APIError s \<Rightarrow> ''Unable to scan'' | _ \<Rightarrow> ''Unknown error'') []],
      10)"
proof -
  have "main_try w = (t, Inl e)"
    by (simp add: main_try_def assms io_simps)
  then show ?thesis by (rule main_failure)
qed

lemma ScanImage_init_example:
  "ScanImage_init ''id'' ''pw'' ''myapp'' ''v1'' ''us-1'' = Inr example_image"
  by (simp add: ScanImage_init_def url_lookup_def registry_url_map_def auth_url_map_def
      bind_res_def example_image_def)

lemma only_misconfig_no_signal:
  assumes "list_all (has_type misconfig_types) ds"
    and "set wanted \<inter> set misconfig_types = {}"
  shows "list_all detection_ok ds \<and> \<not> list_ex (has_type wanted) ds"
  using assms
  by (induction ds) (auto simp: has_type_detection_ok dest: has_type_disjoint)

lemma detection_loop_returned_events:
  "snd (detection_loop wanted alert hit ds) = Inr c \<Longrightarrow>
   detection_loop wanted alert hit ds =
     (if list_ex (has_type wanted) ds then ([alert], Inr hit) else ([], Inr 0))"
proof (induction ds)
  case Nil
  then show ?case by (simp add: ret_def)
next
  case (Cons d ds)
  show ?case
  proof (cases "detection_type d")
    case (Inl e)
    then have "\<not> has_type wanted d"
      by (simp add: has_type_def detection_type_Inl)
    with Cons Inl show ?thesis
      by (cases e) (simp_all add: raise_def)
  next
    case (Inr t)
    then obtain s where s: "type_of_detection d = Some s" "lower s = t"
      using detection_type_Inr by blast
    with Cons Inr show ?thesis
      by (cases "t \<in> set wanted") (simp_all add: has_type_def io_simps)
  qed
qed

lemma scan_detections_returned_events:
  assumes "map_of r ''Detections'' = Some (JList ds)"
    and "\<not> isl (snd (scan_detections msg wanted alert hit r))"
  shows "scan_detections msg wanted alert hit r =
     (if list_ex (has_type wanted) ds then ([Log INFO msg [], alert], Inr hit)
      else ([Log INFO msg []], Inr 0))"
proof -
  from assms(2) obtain c where c: "snd (scan_detections msg wanted alert hit r) = Inr c"
    by (cases "snd (scan_detections msg wanted alert hit r)") auto
  then have "snd (detection_loop wanted alert hit ds) = Inr c"
    using assms(1) by (simp add: scan_detections_eq)
  from detection_loop_returned_events [OF this] show ?thesis
    using assms(1) by (simp add: scan_detections_eq)
qed

lemma scan_detections_ok_returns:
  assumes "map_of r ''Detections'' = Some (JList ds)" and "list_all detection_ok ds"
  shows "\<not> isl (snd (scan_detections msg wanted alert hit r))"
  using scan_detections_ok [OF assms] by simp

lemma hex_val_hex_digit: "k < 16 \<Longrightarrow> hex_val (hex_digit k) = Some k"
  by (auto simp: hex_val_def hex_digit_def Let_def)

lemma hex4_byte:
  "n < 256 \<Longrightarrow> hex4 CHR ''0'' CHR ''0'' (hex_digit (n div 16)) (hex_digit (n mod 16)) = Some n"
proof -
  assume n: "n < 256"
  then have "n div 16 < 16" by simp
  then have a: "hex_val (hex_digit (n div 16)) = Some (n div 16)" by (rule hex_val_hex_digit)
  have b: "hex_val (hex_digit (n mod 16)) = Some (n mod 16)" by (rule hex_val_hex_digit) simp
  have z: "hex_val CHR ''0'' = Some 0" by (simp add: hex_val_def)
  show ?thesis by (simp add: hex4_def a b z)
qed

lemma scanstring_plain:
  "c \<noteq> dquote \<Longrightarrow> c \<noteq> backslash \<Longrightarrow> 32 \<le> (of_char c :: nat) \<Longrightarrow>
   scanstring (c # s) = cons_result c (scanstring s)"
  by simp

lemma scanstring_unicode:
  "scanstring (backslash # CHR ''u'' # CHR ''0'' # CHR ''0'' #
       hex_digit ((of_char c :: nat) div 16) # hex_digit ((of_char c :: nat) mod 16) # s) =
   cons_result c (scanstring s)"
  using hex4_byte [OF nat_of_char_less_256, of c] nat_of_char_less_256 [of c]
  by simp

lemma scanstring_short:
  "unescape e = Some c \<Longrightarrow> e \<noteq> CHR ''u'' \<Longrightarrow>
   scanstring (backslash # e # s) = cons_result c (scanstring s)"
  by simp

lemma scanstring_escape: "scanstring (escape_char c @ s) = cons_result c (scanstring s)"
proof -
  consider "c = dquote" | "c = backslash" | "c = newline" | "c = CHR 0x0D" | "c = CHR 0x09"
    | "c = CHR 0x08" | "c = CHR 0x0C"
    | "c \<noteq> dquote" "c \<noteq> backslash" "c \<noteq> newline" "c \<noteq> CHR 0x0D" "c \<noteq> CHR 0x09"
      "c \<noteq> CHR 0x08" "c \<noteq> CHR 0x0C"
    by blast
  then show ?thesis
  proof cases
    case 8
    show ?thesis
    proof (cases "32 \<le> (of_char c :: nat) \<and> (of_char c :: nat) \<le> 126")
      case True
      with 8 show ?thesis
        by (simp add: escape_char_def del: scanstring.simps) (simp add: scanstring_plain)
    next
      case False
      with 8 show ?thesis
        by (auto simp add: escape_char_def scanstring_unicode simp del: scanstring.simps)
    qed
  qed (simp_all add: escape_char_def unescape_def)
qed

lemma scanstring_body:
  "scanstring (concat (map escape_char s) @ dquote # rest) = Some (s, rest)"
  by (induction s) (simp_all add: scanstring_escape cons_result_def del: scanstring.simps, simp)

lemma scanstring_encoded:
  "\<exists>body. encode_string s @ rest = dquote # body \<and> scanstring body = Some (s, rest)"
  by (simp add: encode_string_def scanstring_body)

lemma is_digit_char_of: "(d :: nat) < 10 \<Longrightarrow> is_digit (char_of (48 + d))"
  by (simp add: is_digit_def)

lemma char_of_48: "char_of (48 :: nat) = CHR ''0''"
proof -
  have "(of_char CHR ''0'' :: nat) = 48" by simp
  then show ?thesis by (metis char_of_char)
qed

lemma str_nat_digits: "list_all is_digit (str_nat n)"
proof (induction n rule: str_nat.induct)
  case (1 n)
  show ?case
  proof (cases "n < 10")
    case True
    then show ?thesis by (subst str_nat.simps) (simp add: is_digit_char_of)
  next
    case False
    with 1 show ?thesis
      by (subst str_nat.simps) (simp add: is_digit_char_of)
  qed
qed

lemma str_nat_nonempty: "str_nat n \<noteq> []"
  by (subst str_nat.simps) simp

lemma str_nat_value: "nat_of_digits (str_nat n) = n"
proof (induction n rule: str_nat.induct)
  case (1 n)
  show ?case
  proof (cases "n < 10")
    case True
    then show ?thesis by (subst str_nat.simps) (simp add: nat_of_digits_def)
  next
    case False
    with 1 have "nat_of_digits (str_nat (n div 10)) = n div 10" by simp
    with False show ?thesis
      by (subst str_nat.simps) (simp add: nat_of_digits_def)
  qed
qed

lemma str_nat_hd: "0 < n \<Longrightarrow> hd (str_nat n) \<noteq> CHR ''0''"
proof (induction n rule: str_nat.induct)
  case (1 n)
  show ?case
  proof (cases "n < 10")
    case True
    have "char_of (48 + n) \<noteq> CHR ''0''"
    proof
      assume "char_of (48 + n) = CHR ''0''"
      then have "(of_char (char_of (48 + n) :: char) :: nat) = of_char CHR ''0''"
        by simp
      with True 1(2) show False by simp
    qed
    with True show ?thesis by (subst str_nat.simps) simp
  next
    case False
    then have "0 < n div 10" by simp
    with 1(1) False have "hd (str_nat (n div 10)) \<noteq> CHR ''0''" by simp
    with False show ?thesis
      by (subst str_nat.simps) (simp add: str_nat_nonempty)
  qed
qed

lemma str_nat_zero: "str_nat 0 = ''0''"
  by (subst str_nat.simps) (simp add: char_of_48)

lemma number_end_not_digit: "number_end rest \<Longrightarrow> takeWhile is_digit rest = []"
  by (cases rest) (simp_all add: number_end_def)

lemma takeWhile_str_nat:
  "number_end rest \<Longrightarrow> takeWhile is_digit (str_nat n @ rest) = str_nat n"
  using str_nat_digits [of n]
  by (simp add: list_all_iff number_end_not_digit)

lemma dropWhile_str_nat:
  "number_end rest \<Longrightarrow> dropWhile is_digit (str_nat n @ rest) = rest"
  using str_nat_digits [of n]
  by (cases rest) (simp_all add: list_all_iff number_end_def)

lemma scan_int_part_str_nat:
  assumes "number_end rest"
  shows "scan_int_part (str_nat n @ rest) = Some (n, rest)"
proof (cases "n = 0")
  case True
  then show ?thesis by (simp add: str_nat_zero scan_int_part_def)
next
  case False
  obtain c cs where s: "str_nat n = c # cs"
    using str_nat_nonempty [of n] by (cases "str_nat n") auto
  from False have "hd (str_nat n) \<noteq> CHR ''0''" by (simp add: str_nat_hd)
  with s have c0: "c \<noteq> CHR ''0''" by simp
  from s str_nat_digits [of n] have cd: "is_digit c" by simp
  have "scan_int_part ((c # cs) @ rest) =
        Some (nat_of_digits (takeWhile is_digit ((c # cs) @ rest)),
              dropWhile is_digit ((c # cs) @ rest))"
    using c0 cd by (simp add: scan_int_part_def)
  then show ?thesis
    unfolding s [symmetric]
    by (simp add: takeWhile_str_nat dropWhile_str_nat str_nat_value assms)
qed

lemma str_nat_not_minus: "\<exists>c cs. str_nat n = c # cs \<and> is_digit c"
  using str_nat_nonempty [of n] str_nat_digits [of n] by (cases "str_nat n") auto

lemma is_digit_not_minus: "is_digit c \<Longrightarrow> c \<noteq> CHR ''-''"
  by (auto simp: is_digit_def)

lemma scan_sign_str_int:
  "scan_sign (str_int i @ rest) = (i < 0, str_nat (nat \<bar>i\<bar>) @ rest)"
proof (cases "i < 0")
  case True
  then show ?thesis by (simp add: str_int_def scan_sign_def)
next
  case False
  obtain c cs where s: "str_nat (nat i) = c # cs" "is_digit c"
    using str_nat_not_minus by blast
  with False show ?thesis
    by (simp add: str_int_def scan_sign_def is_digit_not_minus)
qed

lemma scan_frac_none: "number_end rest \<Longrightarrow> scan_frac rest = ([], rest)"
  by (cases rest) (simp_all add: scan_frac_def number_end_def)

lemma scan_exp_none: "number_end rest \<Longrightarrow> scan_exp rest = (None, rest)"
  by (cases rest) (simp_all add: scan_exp_def number_end_def)

lemma signed_abs: "(if i < 0 then - 1 else 1) * int (nat \<bar>i\<bar>) = (i :: int)"
  by simp

lemma parse_number_int:
  assumes "number_end rest"
  shows "parse_number (str_int i @ rest) = Some (JInt i, rest)"
  by (simp add: parse_number_def scan_sign_str_int scan_int_part_str_nat [OF assms]
      scan_frac_none [OF assms] scan_exp_none [OF assms] Let_def)

lemma scan_exp_str_int:
  assumes "number_end rest"
  shows "scan_exp (CHR ''e'' # str_int e @ rest) = (Some e, rest)"
proof (cases "e < 0")
  case True
  then show ?thesis
    by (simp add: scan_exp_def str_int_def takeWhile_str_nat dropWhile_str_nat assms
        str_nat_nonempty str_nat_value)
next
  case False
  obtain c cs where s: "str_nat (nat e) = c # cs" "is_digit c"
    using str_nat_not_minus by blast
  then have c: "c \<noteq> CHR ''-''" "c \<noteq> CHR ''+''"
    by (auto simp: is_digit_def)
  have t: "takeWhile is_digit (c # cs @ rest) = c # cs"
    "dropWhile is_digit (c # cs @ rest) = rest"
    using takeWhile_str_nat [OF assms, of "nat e"] dropWhile_str_nat [OF assms, of "nat e"] s
    by simp_all
  have v: "nat_of_digits (c # cs) = nat e"
    using str_nat_value [of "nat e"] s by simp
  from False show ?thesis
    by (simp add: scan_exp_def str_int_def s c t v del: takeWhile.simps dropWhile.simps)
qed

lemma number_end_e: "number_end rest \<Longrightarrow> scan_frac (CHR ''e'' # rest') = ([], CHR ''e'' # rest')"
  by (simp add: scan_frac_def)

lemma parse_number_float:
  assumes "number_end rest"
  shows "parse_number (str_int m @ CHR ''e'' # str_int e @ rest) = Some (JFloat m e, rest)"
proof -
  have ne: "number_end (CHR '','' # rest)" by (simp add: number_end_def is_digit_def)
  have i: "scan_int_part (str_nat (nat \<bar>m\<bar>) @ CHR ''e'' # str_int e @ rest) =
           Some (nat \<bar>m\<bar>, CHR ''e'' # str_int e @ rest)"
  proof -
    have d: "takeWhile is_digit (CHR ''e'' # str_int e @ rest) = []"
      by (simp add: is_digit_def)
    obtain c cs where s: "str_nat (nat \<bar>m\<bar>) = c # cs"
      using str_nat_nonempty [of "nat \<bar>m\<bar>"] by (cases "str_nat (nat \<bar>m\<bar>)") auto
    show ?thesis
    proof (cases "nat \<bar>m\<bar> = 0")
      case True
      then show ?thesis by (simp add: str_nat_zero scan_int_part_def)
    next
      case False
      then have "hd (str_nat (nat \<bar>m\<bar>)) \<noteq> CHR ''0''" by (simp add: str_nat_hd)
      with s have c0: "c \<noteq> CHR ''0''" by simp
      from s str_nat_digits [of "nat \<bar>m\<bar>"] have cd: "is_digit c" by simp
      have tw: "takeWhile is_digit (str_nat (nat \<bar>m\<bar>) @ CHR ''e'' # str_int e @ rest) =
                str_nat (nat \<bar>m\<bar>)"
        using str_nat_digits [of "nat \<bar>m\<bar>"]
        by (simp add: list_all_iff is_digit_def)
      have dw: "dropWhile is_digit (str_nat (nat \<bar>m\<bar>) @ CHR ''e'' # str_int e @ rest) =
                CHR ''e'' # str_int e @ rest"
        using str_nat_digits [of "nat \<bar>m\<bar>"]
        by (simp add: list_all_iff is_digit_def)
      have "scan_int_part ((c # cs) @ CHR ''e'' # str_int e @ rest) =
        Some (nat_of_digits (takeWhile is_digit ((c # cs) @ CHR ''e'' # str_int e @ rest)),
              dropWhile is_digit ((c # cs) @ CHR ''e'' # str_int e @ rest))"
        using c0 cd by (simp add: scan_int_part_def)
      then show ?thesis
        unfolding s [symmetric] by (simp add: tw dw str_nat_value)
    qed
  qed
  have sg: "scan_sign (str_int m @ CHR ''e'' # str_int e @ rest) =
            (m < 0, str_nat (nat \<bar>m\<bar>) @ CHR ''e'' # str_int e @ rest)"
    by (rule scan_sign_str_int)
  show ?thesis
    by (simp add: parse_number_def sg i scan_frac_def scan_exp_str_int [OF assms] Let_def
        nat_of_digits_def)
qed

lemma skip_ws_spaces: "skip_ws (replicate k CHR '' '' @ s) = skip_ws s"
  by (induction k) (simp_all add: is_ws_def)

lemma skip_ws_indent: "skip_ws (newline_indent level @ s) = skip_ws s"
  by (simp add: newline_indent_def is_ws_def skip_ws_spaces)

lemma skip_ws_value: "starts_value s \<Longrightarrow> skip_ws (s @ t) = s @ t"
  by (cases s) (simp_all add: starts_value_def)

lemma skip_ws_indent_value:
  "starts_value s \<Longrightarrow> skip_ws (newline_indent level @ s @ t) = s @ t"
  by (simp add: skip_ws_indent skip_ws_value)

lemma starts_value_append: "starts_value s \<Longrightarrow> starts_value (s @ t)"
  by (cases s) (simp_all add: starts_value_def)

lemma str_int_start: "\<exists>c cs. str_int i = c # cs \<and> (is_digit c \<or> c = CHR ''-'')"
  using str_nat_not_minus [of "nat i"] by (auto simp: str_int_def)

lemma number_start_value: "is_digit c \<or> c = CHR ''-'' \<Longrightarrow> starts_value (c # cs)"
  by (auto simp: starts_value_def is_digit_def is_ws_def)

lemma starts_value_encode_string: "starts_value (encode_string s @ t)"
  by (simp add: encode_string_def starts_value_def is_ws_def)

lemma starts_value_dumps: "starts_value (dumps level v)"
proof (cases v)
  case JNull
  then show ?thesis by (simp add: starts_value_def is_ws_def)
next
  case (JBool b)
  then show ?thesis by (simp add: starts_value_def is_ws_def)
next
  case (JInt i)
  obtain c cs where "str_int i = c # cs" "is_digit c \<or> c = CHR ''-''"
    using str_int_start by blast
  with JInt show ?thesis
    using number_start_value [of c cs] by simp
next
  case (JFloat m e)
  obtain c cs where "str_int m = c # cs" "is_digit c \<or> c = CHR ''-''"
    using str_int_start by blast
  with JFloat show ?thesis
    using number_start_value [of c "cs @ ''e'' @ str_int e"] by simp
next
  case (JStr s)
  then show ?thesis
    using starts_value_encode_string [of s "[]"] by simp
next
  case (JList vs)
  then show ?thesis by (cases "vs = []") (simp_all add: starts_value_def is_ws_def)
next
  case (JDict kvs)
  then show ?thesis by (cases "kvs = []") (simp_all add: starts_value_def is_ws_def)
qed

lemma join_Cons: "xs \<noteq> [] \<Longrightarrow> join sep (x # xs) = x @ sep @ join sep xs"
  by (cases xs) simp_all

lemma starts_value_join:
  "xs \<noteq> [] \<Longrightarrow> starts_value (hd xs) \<Longrightarrow> starts_value (join sep xs)"
  by (cases xs; cases "tl xs") (auto simp: starts_value_append)

lemma number_char_facts:
  assumes "is_digit c \<or> c = CHR ''-''"
  shows "c \<noteq> dquote" "c \<noteq> CHR ''{''" "c \<noteq> CHR ''[''" "c \<noteq> CHR ''n''" "c \<noteq> CHR ''t''"
    "c \<noteq> CHR ''f''"
  using assms by (auto simp: is_digit_def)

lemma strip_prefix_first: "c \<noteq> p \<Longrightarrow> strip_prefix (p # ps) (c # cs) = None"
  by (simp add: strip_prefix_def)

lemma parse_value_number:
  assumes "is_digit c \<or> c = CHR ''-''"
  shows "parse_value (Suc n) (c # cs) = parse_number (c # cs)"
  using number_char_facts [OF assms]
  by (simp add: strip_prefix_first)

lemma parse_value_int:
  assumes "number_end rest"
  shows "parse_value (Suc n) (str_int i @ rest) = Some (JInt i, rest)"
proof -
  obtain c cs where s: "str_int i = c # cs" "is_digit c \<or> c = CHR ''-''"
    using str_int_start by blast
  have "parse_value (Suc n) ((c # cs) @ rest) = parse_number ((c # cs) @ rest)"
    using parse_value_number [OF s(2)] by simp
  then show ?thesis
    unfolding s(1) [symmetric] by (simp add: parse_number_int [OF assms])
qed

lemma parse_value_float:
  assumes "number_end rest"
  shows "parse_value (Suc n) (str_int m @ CHR ''e'' # str_int e @ rest) = Some (JFloat m e, rest)"
proof -
  obtain c cs where s: "str_int m = c # cs" "is_digit c \<or> c = CHR ''-''"
    using str_int_start by blast
  have "parse_value (Suc n) ((c # cs) @ CHR ''e'' # str_int e @ rest) =
        parse_number ((c # cs) @ CHR ''e'' # str_int e @ rest)"
    using parse_value_number [OF s(2)] by simp
  then show ?thesis
    unfolding s(1) [symmetric] by (simp add: parse_number_float [OF assms])
qed

lemma parse_value_string:
  "parse_value (Suc n) (encode_string s @ rest) = Some (JStr s, rest)"
  by (simp add: encode_string_def scanstring_body)

lemma dict_set_new: "k \<notin> fst ` set d \<Longrightarrow> dict_set d k v = d @ [(k, v)]"
  by (induction d) auto

lemma dict_of_pairs_distinct_aux:
  "distinct (map fst (d @ ps)) \<Longrightarrow>
   foldl (\<lambda>d kv. dict_set d (fst kv) (snd kv)) d ps = d @ ps"
proof (induction ps arbitrary: d)
  case Nil
  then show ?case by simp
next
  case (Cons p ps)
  from Cons.prems have "fst p \<notin> fst ` set d" by auto
  then have "dict_set d (fst p) (snd p) = d @ [p]" by (simp add: dict_set_new)
  moreover from Cons.prems have "distinct (map fst ((d @ [p]) @ ps))" by simp
  ultimately show ?case using Cons.IH [of "d @ [p]"] by simp
qed

lemma dict_of_pairs_distinct: "distinct (map fst ps) \<Longrightarrow> dict_of_pairs ps = ps"
  using dict_of_pairs_distinct_aux [of "[]" ps] by (simp add: dict_of_pairs_def)

lemma parse_elems_join:
  assumes "vs \<noteq> []"
    and "\<And>v n rest. v \<in> set vs \<Longrightarrow> length (dumps level v) \<le> n \<Longrightarrow> number_end rest \<Longrightarrow>
           parse_value n (dumps level v @ rest) = Some (v, rest)"
    and "length (join (CHR '','' # newline_indent level) (map (dumps level) vs)) < n"
  shows "parse_elems n
           (join (CHR '','' # newline_indent level) (map (dumps level) vs) @
            newline_indent level' @ CHR '']'' # rest) = Some (vs, rest)"
  using assms
proof (induction vs arbitrary: n rule: list_nonempty_induct)
  case (single v)
  then obtain m where n: "n = Suc m" and m: "length (dumps level v) \<le> m"
    by (cases n) auto
  have ne: "number_end (newline_indent level' @ CHR '']'' # rest)"
    by (simp add: number_end_def newline_indent_def is_digit_def)
  have "parse_value m (dumps level v @ newline_indent level' @ CHR '']'' # rest) =
        Some (v, newline_indent level' @ CHR '']'' # rest)"
    using single(1) [OF _ m ne] by simp
  then show ?case
    by (simp add: n skip_ws_indent is_ws_def)
next
  case (cons v vs)
  let ?sep = "CHR '','' # newline_indent level"
  let ?tail = "join ?sep (map (dumps level) vs) @ newline_indent level' @ CHR '']'' # rest"
  have j: "join ?sep (map (dumps level) (v # vs)) =
           dumps level v @ ?sep @ join ?sep (map (dumps level) vs)"
    using cons(1) by (simp add: join_Cons)
  have len: "length (join ?sep (map (dumps level) (v # vs))) =
             length (dumps level v) + length ?sep + length (join ?sep (map (dumps level) vs))"
    unfolding j by simp
  obtain m where n: "n = Suc m"
    using cons(4) by (cases n) simp_all
  have m: "length (dumps level v) \<le> m"
    using cons(4) len n by linarith
  have "0 < length (dumps level v)"
    using starts_value_dumps [of level v] by (cases "dumps level v") (simp_all add: starts_value_def)
  then have m': "length (join ?sep (map (dumps level) vs)) < m"
    using cons(4) len n by linarith
  have ne: "number_end (?sep @ ?tail)"
    by (simp add: number_end_def is_digit_def)
  have pv: "parse_value m (dumps level v @ ?sep @ ?tail) = Some (v, ?sep @ ?tail)"
    using cons(3) [OF _ m ne] by simp
  have sv: "starts_value (join ?sep (map (dumps level) vs))"
    using cons(1) by (intro starts_value_join) (simp_all add: hd_map starts_value_dumps)
  have sk: "skip_ws (newline_indent level @ ?tail) = ?tail"
    using skip_ws_indent_value [OF sv] by simp
  have ih: "parse_elems m ?tail = Some (vs, rest)"
    using cons(2) [OF _ m'] cons(3) by simp
  have sk': "skip_ws (?sep @ ?tail) = CHR '','' # newline_indent level @ ?tail"
    by (simp add: is_ws_def)
  have "parse_elems (Suc m) (dumps level v @ ?sep @ ?tail) = Some (v # vs, rest)"
    by (subst parse_elems.simps)
       (simp only: pv sk' sk ih option.case prod.case list.case if_True refl)
  then show ?case
    unfolding j n by simp
qed

lemma parse_members_step:
  assumes "parse_value m (dumps level v @ tail) = Some (v, tail)"
  shows "parse_members (Suc m) (encode_string k @ '': '' @ dumps level v @ tail) =
     (case skip_ws tail of
        [] \<Rightarrow> None
      | d # r \<Rightarrow>
          if d = CHR '','' then
            (case parse_members m (skip_ws r) of
               None \<Rightarrow> None
             | Some (ps, rest) \<Rightarrow> Some ((k, v) # ps, rest))
          else if d = CHR ''}'' then Some ([(k, v)], r)
          else None)"
proof -
  have sk: "skip_ws (CHR '' '' # dumps level v @ tail) = dumps level v @ tail"
    using skip_ws_value [OF starts_value_dumps, of level v tail] by (simp add: is_ws_def)
  have sc: "scanstring (concat (map escape_char k) @ dquote # CHR '':'' # CHR '' '' # dumps level v @ tail)
            = Some (k, CHR '':'' # CHR '' '' # dumps level v @ tail)"
    by (rule scanstring_body)
  have sk2: "skip_ws (CHR '':'' # CHR '' '' # dumps level v @ tail) =
             CHR '':'' # CHR '' '' # dumps level v @ tail"
    by (simp add: is_ws_def)
  have e: "encode_string k @ '': '' @ dumps level v @ tail =
           dquote # concat (map escape_char k) @ dquote # CHR '':'' # CHR '' '' # dumps level v @ tail"
    by (simp add: encode_string_def)
  show ?thesis
    unfolding e
    by (subst parse_members.simps)
       (simp only: sc sk2 sk assms option.case prod.case list.case if_True refl)
qed

lemma length_dumps_pos: "0 < length (dumps level v)"
  using starts_value_dumps [of level v] by (cases "dumps level v") (simp_all add: starts_value_def)

lemma starts_value_member: "starts_value (member_text level kv)"
  using starts_value_encode_string by (simp add: member_text_def)

lemma parse_members_join:
  assumes "kvs \<noteq> []"
    and "\<And>kv n rest. kv \<in> set kvs \<Longrightarrow> length (dumps level (snd kv)) \<le> n \<Longrightarrow> number_end rest \<Longrightarrow>
           parse_value n (dumps level (snd kv) @ rest) = Some (snd kv, rest)"
    and "length (join (CHR '','' # newline_indent level) (map (member_text level) kvs)) < n"
  shows "parse_members n
           (join (CHR '','' # newline_indent level) (map (member_text level) kvs) @
            newline_indent level' @ CHR ''}'' # rest) = Some (kvs, rest)"
  using assms
proof (induction kvs arbitrary: n rule: list_nonempty_induct)
  case (single kv)
  obtain m where n: "n = Suc m"
    using single(2) by (cases n) simp_all
  have lm: "length (member_text level kv) =
            length (encode_string (fst kv)) + 2 + length (dumps level (snd kv))"
    by (simp add: member_text_def)
  have m: "length (dumps level (snd kv)) \<le> m"
    using single(2) n lm by simp
  have ne: "number_end (newline_indent level' @ CHR ''}'' # rest)"
    by (simp add: number_end_def newline_indent_def is_digit_def)
  have pv: "parse_value m (dumps level (snd kv) @ newline_indent level' @ CHR ''}'' # rest) =
        Some (snd kv, newline_indent level' @ CHR ''}'' # rest)"
    using single(1) [OF _ m ne] by simp
  have sk: "skip_ws (newline_indent level' @ CHR ''}'' # rest) = CHR ''}'' # rest"
    by (simp add: skip_ws_indent is_ws_def)
  have "parse_members (Suc m)
          (encode_string (fst kv) @ '': '' @ dumps level (snd kv) @
             newline_indent level' @ CHR ''}'' # rest) = Some ([kv], rest)"
    unfolding parse_members_step [OF pv] sk by simp
  then show ?case
    by (simp add: n member_text_def)
next
  case (cons kv kvs)
  let ?sep = "CHR '','' # newline_indent level"
  let ?tail = "join ?sep (map (member_text level) kvs) @ newline_indent level' @ CHR ''}'' # rest"
  have j: "join ?sep (map (member_text level) (kv # kvs)) =
           member_text level kv @ ?sep @ join ?sep (map (member_text level) kvs)"
    using cons(1) by (simp add: join_Cons)
  have len: "length (join ?sep (map (member_text level) (kv # kvs))) =
             length (member_text level kv) + length ?sep +
             length (join ?sep (map (member_text level) kvs))"
    unfolding j by simp
  obtain m where n: "n = Suc m"
    using cons(4) by (cases n) simp_all
  have lm: "length (member_text level kv) =
            length (encode_string (fst kv)) + 2 + length (dumps level (snd kv))"
    by (simp add: member_text_def)
  have m: "length (dumps level (snd kv)) \<le> m"
    using cons(4) len n lm by linarith
  have m': "length (join ?sep (map (member_text level) kvs)) < m"
    using cons(4) len n lm by linarith
  have ne: "number_end (?sep @ ?tail)"
    by (simp add: number_end_def is_digit_def)
  have pv: "parse_value m (dumps level (snd kv) @ ?sep @ ?tail) = Some (snd kv, ?sep @ ?tail)"
    using cons(3) [OF _ m ne] by simp
  have sv: "starts_value (join ?sep (map (member_text level) kvs))"
    using cons(1) by (intro starts_value_join) (simp_all add: hd_map starts_value_member)
  have sk: "skip_ws (newline_indent level @ ?tail) = ?tail"
    using skip_ws_indent_value [OF sv] by simp
  have sk': "skip_ws (?sep @ ?tail) = CHR '','' # newline_indent level @ ?tail"
    by (simp add: is_ws_def)
  have ih: "parse_members m ?tail = Some (kvs, rest)"
    using cons(2) [OF _ m'] cons(3) by simp
  have "parse_members (Suc m)
          (encode_string (fst kv) @ '': '' @ dumps level (snd kv) @ ?sep @ ?tail) =
        Some (kv # kvs, rest)"
    unfolding parse_members_step [OF pv] sk'
    by (simp only: list.case if_True refl sk ih option.case prod.case prod.collapse)
  then show ?case
    unfolding j n by (simp add: member_text_def)
qed

lemma parse_empty_list: "parse_value (Suc n) (''[]'' @ rest) = Some (JList [], rest)"
  by (simp add: is_ws_def)

lemma parse_empty_dict: "parse_value (Suc n) (''{}'' @ rest) = Some (JDict [], rest)"
  by (simp add: is_ws_def)

lemma parse_value_list:
  assumes "parse_elems n (s @ rest) = Some (vs, rest')" and "starts_value s"
  shows "parse_value (Suc n) (CHR ''['' # newline_indent level @ s @ rest) = Some (JList vs, rest')"
proof -
  obtain d ds where s: "s = d # ds" "d \<noteq> CHR '']''"
    using assms(2) by (cases s) (simp_all add: starts_value_def)
  have sk: "skip_ws (newline_indent level @ s @ rest) = d # ds @ rest"
    using skip_ws_indent_value [OF assms(2), of level rest] s by simp
  have pe: "parse_elems n (d # ds @ rest) = Some (vs, rest')"
    using assms(1) s by simp
  show ?thesis
    by (subst parse_value.simps)
       (simp add: sk pe s(2) del: parse_value.simps parse_elems.simps parse_members.simps)
qed

lemma parse_value_dict:
  assumes "parse_members n (s @ rest) = Some (ps, rest')" and "starts_value s"
  shows "parse_value (Suc n) (CHR ''{'' # newline_indent level @ s @ rest) =
         Some (JDict (dict_of_pairs ps), rest')"
proof -
  obtain d ds where s: "s = d # ds" "d \<noteq> CHR ''}''"
    using assms(2) by (cases s) (simp_all add: starts_value_def)
  have sk: "skip_ws (newline_indent level @ s @ rest) = d # ds @ rest"
    using skip_ws_indent_value [OF assms(2), of level rest] s by simp
  have pe: "parse_members n (d # ds @ rest) = Some (ps, rest')"
    using assms(1) s by simp
  show ?thesis
    by (subst parse_value.simps)
       (simp add: sk pe s(2) del: parse_value.simps parse_elems.simps parse_members.simps)
qed

lemma member_text_fun:
  "member_text level = (\<lambda>kv. encode_string (fst kv) @ '': '' @ dumps level (snd kv))"
  by (rule ext) (simp add: member_text_def)

lemma dumps_list:
  "vs \<noteq> [] \<Longrightarrow>
   dumps level (JList vs) @ rest =
     CHR ''['' # newline_indent (Suc level) @
     join (CHR '','' # newline_indent (Suc level)) (map (dumps (Suc level)) vs) @
     newline_indent level @ CHR '']'' # rest"
  by simp

lemma dumps_dict:
  "kvs \<noteq> [] \<Longrightarrow>
   dumps level (JDict kvs) @ rest =
     CHR ''{'' # newline_indent (Suc level) @
     join (CHR '','' # newline_indent (Suc level)) (map (member_text (Suc level)) kvs) @
     newline_indent level @ CHR ''}'' # rest"
  by (simp add: member_text_fun)

lemma length_dumps_list:
  "vs \<noteq> [] \<Longrightarrow>
   length (dumps level (JList vs)) =
     length (join (CHR '','' # newline_indent (Suc level)) (map (dumps (Suc level)) vs)) +
     length (newline_indent (Suc level)) + length (newline_indent level) + 2"
  by simp

lemma length_dumps_dict:
  "kvs \<noteq> [] \<Longrightarrow>
   length (dumps level (JDict kvs)) =
     length (join (CHR '','' # newline_indent (Suc level)) (map (member_text (Suc level)) kvs)) +
     length (newline_indent (Suc level)) + length (newline_indent level) + 2"
  by (simp add: member_text_fun)

lemma parse_dumps:
  "keys_distinct v \<Longrightarrow> length (dumps level v) \<le> n \<Longrightarrow> number_end rest \<Longrightarrow>
   parse_value n (dumps level v @ rest) = Some (v, rest)"
proof (induction v arbitrary: level n rest)
  case JNull
  then obtain m where "n = Suc m"
    using length_dumps_pos [of level JNull] by (cases n) simp_all
  then show ?case by (simp add: strip_prefix_def)
next
  case (JBool b)
  then obtain m where "n = Suc m"
    using length_dumps_pos [of level "JBool b"] by (cases n) simp_all
  then show ?case by (cases b) (simp_all add: strip_prefix_def)
next
  case (JInt i)
  then obtain m where n: "n = Suc m"
    using length_dumps_pos [of level "JInt i"] by (cases n) simp_all
  show ?case
    unfolding n using parse_value_int [OF JInt(3)] by simp
next
  case (JFloat m e)
  then obtain k where n: "n = Suc k"
    using length_dumps_pos [of level "JFloat m e"] by (cases n) simp_all
  show ?case
    unfolding n using parse_value_float [OF JFloat(3)] by simp
next
  case (JStr s)
  then obtain m where n: "n = Suc m"
    using length_dumps_pos [of level "JStr s"] by (cases n) simp_all
  show ?case
    unfolding n using parse_value_string by simp
next
  case (JList vs)
  obtain m where n: "n = Suc m"
    using JList(3) length_dumps_pos [of level "JList vs"] by (cases n) simp_all
  show ?case
  proof (cases "vs = []")
    case True
    then show ?thesis
      unfolding n using parse_empty_list [of m rest] by simp
  next
    case False
    let ?sep = "CHR '','' # newline_indent (Suc level)"
    let ?body = "join ?sep (map (dumps (Suc level)) vs)"
    have ih: "\<And>v n rest. v \<in> set vs \<Longrightarrow> length (dumps (Suc level) v) \<le> n \<Longrightarrow>
        number_end rest \<Longrightarrow> parse_value n (dumps (Suc level) v @ rest) = Some (v, rest)"
      using JList(1,2) by (simp add: list_all_iff)
    have len: "length ?body < m"
      using JList(3) n length_dumps_list [OF False, of level] by simp
    have pe: "parse_elems m (?body @ newline_indent level @ CHR '']'' # rest) = Some (vs, rest)"
      using False ih len by (rule parse_elems_join)
    have sv: "starts_value ?body"
      using False by (intro starts_value_join) (simp_all add: hd_map starts_value_dumps)
    have "parse_value (Suc m)
            (CHR ''['' # newline_indent (Suc level) @ ?body @ newline_indent level @ CHR '']'' # rest)
          = Some (JList vs, rest)"
      using pe sv by (rule parse_value_list)
    then show ?thesis
      unfolding n dumps_list [OF False] .
  qed
next
  case (JDict kvs)
  obtain m where n: "n = Suc m"
    using JDict(3) length_dumps_pos [of level "JDict kvs"] by (cases n) simp_all
  show ?case
  proof (cases "kvs = []")
    case True
    then show ?thesis
      unfolding n using parse_empty_dict [of m rest] by simp
  next
    case False
    let ?sep = "CHR '','' # newline_indent (Suc level)"
    let ?body = "join ?sep (map (member_text (Suc level)) kvs)"
    have ih: "\<And>kv n rest. kv \<in> set kvs \<Longrightarrow> length (dumps (Suc level) (snd kv)) \<le> n \<Longrightarrow>
        number_end rest \<Longrightarrow>
        parse_value n (dumps (Suc level) (snd kv) @ rest) = Some (snd kv, rest)"
    proof -
      fix kv n rest
      assume kv: "kv \<in> set kvs" and l: "length (dumps (Suc level) (snd kv)) \<le> n"
        and ne: "number_end rest"
      have "snd kv \<in> Basic_BNFs.snds kv"
        by (cases kv) simp
      moreover have "keys_distinct (snd kv)"
        using JDict(2) kv by (simp add: list_all_iff)
      ultimately show "parse_value n (dumps (Suc level) (snd kv) @ rest) = Some (snd kv, rest)"
        using JDict(1) [OF kv] l ne by blast
    qed
    have len: "length ?body < m"
      using JDict(3) n length_dumps_dict [OF False, of level] by simp
    have pe: "parse_members m (?body @ newline_indent level @ CHR ''}'' # rest) = Some (kvs, rest)"
      using False ih len by (rule parse_members_join)
    have sv: "starts_value ?body"
      using False by (intro starts_value_join) (simp_all add: hd_map starts_value_member)
    have d: "dict_of_pairs kvs = kvs"
      using JDict(2) by (simp add: dict_of_pairs_distinct)
    have "parse_value (Suc m)
            (CHR ''{'' # newline_indent (Suc level) @ ?body @ newline_indent level @ CHR ''}'' # rest)
          = Some (JDict (dict_of_pairs kvs), rest)"
      using pe sv by (rule parse_value_dict)
    then show ?thesis
      unfolding n dumps_dict [OF False] d .
  qed
qed

lemma json_dumps_example:
  \<open>json_dumps [(''Vulnerabilities'', JList []), (''Detections'', JList [JStr ''cis'', JInt 1])] =
   ''{\<newline>    "Vulnerabilities": [],\<newline>    "Detections": [\<newline>        "cis",\<newline>        1\<newline>    ]\<newline>}''\<close>
  by code_simp

lemma json_loads_dumps:
  assumes "keys_distinct (JDict r)"
  shows "json_loads (json_dumps r) = Some (JDict r)"
proof -
  have sk: "skip_ws (dumps 0 (JDict r)) = dumps 0 (JDict r)"
    using skip_ws_value [OF starts_value_dumps, of 0 "JDict r" "[]"] by simp
  have "parse_value (length (dumps 0 (JDict r))) (dumps 0 (JDict r) @ []) = Some (JDict r, [])"
    using assms by (intro parse_dumps) (simp_all add: number_end_def)
  then show ?thesis
    unfolding json_loads_def json_dumps_def sk by simp
qed

section \<open>The claims\<close>

text \<open>
  C1. For every scan report that reaches the deciding step, the exit code of the process
  is chosen by first match: \<open>Secrets = 3\<close> when a secret detection is present (also when
  malware is present too), else \<open>Malware = 2\<close> when a malware detection is present, else
  \<open>Vulnerability = 1\<close> when the vulnerability score is at least the configured threshold,
  else \<open>Success = 0\<close>. Reaching the deciding step: the run obtains the report \<open>r\<close> and
  none of its four scans raises; \<open>threshold\<close> is what \<^verbatim>\<open>int(score)\<close> gives.
\<close>

theorem decision_precedence:
  assumes "snd (obtain_report w) = Inr r"
    and "snd (get_alerts_vuln r) = Inr score"
    and "map_of r ''Detections'' = Some (JList ds)"
    and "\<not> isl (snd (get_alerts_secrets r))"
    and "\<not> isl (snd (get_alerts_malware r))"
    and "\<not> isl (snd (get_alerts_misconfig r))"
    and "int_score w = Inr threshold"
  shows "snd (main w) =
     (if list_ex (has_type [''secret'']) ds then 3
      else if list_ex (has_type [''malware'']) ds then 2
      else if score \<ge> threshold then 1
      else 0) \<and>
     code_value Secrets = 3 \<and> code_value Malware = 2 \<and> code_value Vulnerability = 1 \<and>
     code_value Success = 0"
proof -
  have s: "snd (get_alerts_secrets r) =
           Inr (if list_ex (has_type [''secret'']) ds then 3 else 0)"
    using scan_detections_returned [OF assms(3) assms(4) [unfolded get_alerts_secrets_def]]
    by (simp add: get_alerts_secrets_def type_secret_def)
  have m: "snd (get_alerts_malware r) =
           Inr (if list_ex (has_type [''malware'']) ds then 2 else 0)"
    using scan_detections_returned [OF assms(3) assms(5) [unfolded get_alerts_malware_def]]
    by (simp add: get_alerts_malware_def type_malware_def)
  from assms(6) obtain c where c: "snd (get_alerts_misconfig r) = Inr c"
    by (cases "snd (get_alerts_misconfig r)") auto
  show ?thesis
    by (simp add: snd_main snd_main_try snd_evaluate_and_decide assms(1,2,7) s m c
        decision_def bind_res_def)
qed

theorem decision_precedence_witness:
  "snd (main (example_world
          (report_of [vulnerability_with [(''severity'', JStr ''high'')]]
             [detection_of_type (JStr ''MALWARE''), detection_of_type (JStr ''Secret'')]))) = 3"
proof -
  let ?ds = "[detection_of_type (JStr ''MALWARE''), detection_of_type (JStr ''Secret'')]"
  let ?r = "report_of [vulnerability_with [(''severity'', JStr ''high'')]] ?ds"
  have a: "snd (obtain_report (example_world ?r)) = Inr ?r"
    by (rule obtain_report_example)
  have b: "snd (get_alerts_vuln ?r) = Inr 500"
    by code_simp
  have c: "map_of ?r ''Detections'' = Some (JList ?ds)"
    by (simp add: report_of_def)
  have d1: "\<not> isl (snd (get_alerts_secrets ?r))"
    by code_simp
  have d2: "\<not> isl (snd (get_alerts_malware ?r))"
    by code_simp
  have d3: "\<not> isl (snd (get_alerts_misconfig ?r))"
    by code_simp
  have e: "int_score (example_world ?r) = Inr 500"
    by (simp add: example_world_def)
  have f: "list_ex (has_type [''secret'']) ?ds"
    by code_simp
  show ?thesis
    using decision_precedence [OF a b c d1 d2 d3 e] f by simp
qed

text \<open>
  C2, as the code has it. For every report document with the two required top-level keys
  whose sections are null or lists of records of the expected shape, each of the four
  scans returns; the optional fields (\<^verbatim>\<open>CVEID\<close>, \<^verbatim>\<open>Details\<close>, the score fields, the
  severities, \<^verbatim>\<open>Product\<close>, a detection's \<^verbatim>\<open>Detection\<close> and \<^verbatim>\<open>Type\<close>) may be
  missing, and a detection without a Type is skipped: dropping such records changes no
  scan. When a required top-level key is absent the scans raise \<^verbatim>\<open>KeyError\<close> for it.
\<close>

theorem evaluation_total_on_expected_shape:
  "(vulnerabilities_ok r \<longrightarrow> (\<exists>score. snd (get_alerts_vuln r) = Inr score)) \<and>
   (detections_ok r \<longrightarrow>
      (\<exists>m s c. snd (get_alerts_malware r) = Inr m \<and> snd (get_alerts_secrets r) = Inr s \<and>
         snd (get_alerts_misconfig r) = Inr c)) \<and>
   (\<forall>ds wanted alert hit. list_all detection_ok ds \<longrightarrow>
      detection_loop wanted alert hit (filter (\<lambda>d. type_of_detection d \<noteq> None) ds) =
      detection_loop wanted alert hit ds) \<and>
   (map_of r ''Vulnerabilities'' = None \<longrightarrow>
      snd (get_alerts_vuln r) = Inl (KeyError ''Vulnerabilities'')) \<and>
   (map_of r ''Detections'' = None \<longrightarrow>
      snd (get_alerts_malware r) = Inl (KeyError ''Detections'') \<and>
      snd (get_alerts_secrets r) = Inl (KeyError ''Detections'') \<and>
      snd (get_alerts_misconfig r) = Inl (KeyError ''Detections''))"
proof (intro conjI allI impI)
  assume "vulnerabilities_ok r"
  then show "\<exists>score. snd (get_alerts_vuln r) = Inr score"
    by (rule get_alerts_vuln_total)
next
  assume ok: "detections_ok r"
  show "\<exists>m s c. snd (get_alerts_malware r) = Inr m \<and> snd (get_alerts_secrets r) = Inr s \<and>
         snd (get_alerts_misconfig r) = Inr c"
  proof -
    obtain m where "snd (get_alerts_malware r) = Inr m"
      unfolding get_alerts_malware_def using scan_detections_total [OF ok] by fast
    moreover obtain s where "snd (get_alerts_secrets r) = Inr s"
      unfolding get_alerts_secrets_def using scan_detections_total [OF ok] by fast
    moreover obtain c where "snd (get_alerts_misconfig r) = Inr c"
      unfolding get_alerts_misconfig_def using scan_detections_total [OF ok] by fast
    ultimately show ?thesis by blast
  qed
next
  fix ds wanted alert hit
  assume "list_all detection_ok ds"
  then show "detection_loop wanted alert hit (filter (\<lambda>d. type_of_detection d \<noteq> None) ds) =
      detection_loop wanted alert hit ds"
    by (rule detection_loop_skip_untyped)
next
  assume "map_of r ''Vulnerabilities'' = None"
  then show "snd (get_alerts_vuln r) = Inl (KeyError ''Vulnerabilities'')"
    by (simp add: get_alerts_vuln_snd)
next
  assume none: "map_of r ''Detections'' = None"
  show "snd (get_alerts_malware r) = Inl (KeyError ''Detections'')"
    unfolding get_alerts_malware_def using none by (rule scan_detections_missing_key)
  show "snd (get_alerts_secrets r) = Inl (KeyError ''Detections'')"
    unfolding get_alerts_secrets_def using none by (rule scan_detections_missing_key)
  show "snd (get_alerts_misconfig r) = Inl (KeyError ''Detections'')"
    unfolding get_alerts_misconfig_def using none by (rule scan_detections_missing_key)
qed

theorem evaluation_total_on_expected_shape_witness:
  "(\<exists>score. snd (get_alerts_vuln
       (report_of [JDict [(''Vulnerability'', JDict [])]] [JDict [], detection_of_type (JStr ''cis'')]))
       = Inr score) \<and>
   (\<exists>m s c.
      snd (get_alerts_malware
        (report_of [JDict [(''Vulnerability'', JDict [])]] [JDict [], detection_of_type (JStr ''cis'')]))
        = Inr m \<and>
      snd (get_alerts_secrets
        (report_of [JDict [(''Vulnerability'', JDict [])]] [JDict [], detection_of_type (JStr ''cis'')]))
        = Inr s \<and>
      snd (get_alerts_misconfig
        (report_of [JDict [(''Vulnerability'', JDict [])]] [JDict [], detection_of_type (JStr ''cis'')]))
        = Inr c) \<and>
   detection_loop [''malware''] (Log WARNING ''Alert: Malware found'' []) 2
       [detection_of_type (JStr ''malware'')] =
     detection_loop [''malware''] (Log WARNING ''Alert: Malware found'' []) 2
       [JDict [], detection_of_type (JStr ''malware'')] \<and>
   snd (get_alerts_vuln [(''Detections'', JList [])]) = Inl (KeyError ''Vulnerabilities'') \<and>
   snd (get_alerts_malware [(''Vulnerabilities'', JList [])]) = Inl (KeyError ''Detections'')"
proof -
  let ?r = "report_of [JDict [(''Vulnerability'', JDict [])]]
              [JDict [], detection_of_type (JStr ''cis'')]"
  have a: "vulnerabilities_ok ?r"
    by code_simp
  have b: "detections_ok ?r"
    by code_simp
  have c: "map_of [(''Detections'', JList [])] ''Vulnerabilities'' = None"
    by simp
  have d: "map_of [(''Vulnerabilities'', JList [])] ''Detections'' = None"
    by simp
  have e: "list_all detection_ok [JDict [], detection_of_type (JStr ''malware'')]"
    by code_simp
  have f: "filter (\<lambda>d. type_of_detection d \<noteq> None)
             [JDict [], detection_of_type (JStr ''malware'')] =
           [detection_of_type (JStr ''malware'')]"
    by code_simp
  have skip: "detection_loop [''malware''] (Log WARNING ''Alert: Malware found'' []) 2
       (filter (\<lambda>d. type_of_detection d \<noteq> None)
          [JDict [], detection_of_type (JStr ''malware'')]) =
     detection_loop [''malware''] (Log WARNING ''Alert: Malware found'' []) 2
       [JDict [], detection_of_type (JStr ''malware'')]"
    using evaluation_total_on_expected_shape [of ?r] e by blast
  show ?thesis
    using evaluation_total_on_expected_shape [of ?r] a b skip [unfolded f]
      evaluation_total_on_expected_shape [of "[(''Detections'', JList [])]"] c
      evaluation_total_on_expected_shape [of "[(''Vulnerabilities'', JList [])]"] d
    by blast
qed

text \<open>
  C2 as stated fails: a vulnerability record without its inner \<^verbatim>\<open>Vulnerability\<close> key
  and a detection whose Type is a number both end the evaluation with an exception, in
  reports that hold the two required keys.
\<close>

theorem malformed_record_aborts_evaluation:
  "map_of (report_of [JDict [(''CVEID'', JStr ''CVE-1'')]] []) ''Vulnerabilities'' \<noteq> None \<and>
   map_of (report_of [JDict [(''CVEID'', JStr ''CVE-1'')]] []) ''Detections'' \<noteq> None \<and>
   snd (get_alerts_vuln (report_of [JDict [(''CVEID'', JStr ''CVE-1'')]] []))
     = Inl (KeyError ''Vulnerability'') \<and>
   snd (main (example_world (report_of [JDict [(''CVEID'', JStr ''CVE-1'')]] []))) = 10 \<and>
   map_of (report_of [] [detection_of_type (JInt 5)]) ''Vulnerabilities'' \<noteq> None \<and>
   map_of (report_of [] [detection_of_type (JInt 5)]) ''Detections'' \<noteq> None \<and>
   snd (get_alerts_malware (report_of [] [detection_of_type (JInt 5)])) = Inl AttributeError \<and>
   snd (main (example_world (report_of [] [detection_of_type (JInt 5)]))) = 10"
  by code_simp

text \<open>
  C3, as the code has it. For every list of vulnerability records of the expected shape
  (each a mapping that holds a \<^verbatim>\<open>Vulnerability\<close> mapping whose score fields, where
  read, are mappings, whose resolved severity is a string and whose \<^verbatim>\<open>Product\<close>, if
  present, is a mapping), the vulnerability score is the sum over the records of the
  weight of the resolved severity, compared case-insensitively, with the weights low 20,
  medium 100, high 500 and critical 2000, and 0 for any other, empty or missing severity;
  a report with empty \<^verbatim>\<open>Vulnerabilities\<close> has score 0.
\<close>

theorem vulnerability_score_is_weighted_sum:
  assumes "map_of r ''Vulnerabilities'' = Some (JList vs)"
    and "list_all vuln_record_ok vs"
  shows "snd (get_alerts_vuln r) = Inr (spec_score vs) \<and>
     (vs = [] \<longrightarrow> snd (get_alerts_vuln r) = Inr 0)"
  using assms
  by (simp add: get_alerts_vuln_snd vuln_loop_ok spec_score_def ret_def)

theorem vulnerability_score_is_weighted_sum_witness:
  "snd (get_alerts_vuln
         (report_of
            [vulnerability_with [(''cvss_v3_score'', JDict [(''severity'', JStr ''HIGH'')])],
             vulnerability_with [(''severity'', JStr ''Low'')],
             vulnerability_with [(''severity'', JStr ''negligible'')],
             vulnerability_with [],
             vulnerability_with [(''cvss_v2_score'', JDict [(''severity'', JStr ''Critical'')])],
             vulnerability_with [(''severity'', JStr ''medium'')]]
            [])) = Inr 2620 \<and>
   snd (get_alerts_vuln (report_of [] [])) = Inr 0"
proof -
  let ?vs = "[vulnerability_with [(''cvss_v3_score'', JDict [(''severity'', JStr ''HIGH'')])],
             vulnerability_with [(''severity'', JStr ''Low'')],
             vulnerability_with [(''severity'', JStr ''negligible'')],
             vulnerability_with [],
             vulnerability_with [(''cvss_v2_score'', JDict [(''severity'', JStr ''Critical'')])],
             vulnerability_with [(''severity'', JStr ''medium'')]]"
  have a: "map_of (report_of ?vs []) ''Vulnerabilities'' = Some (JList ?vs)"
    by (simp add: report_of_def)
  have b: "list_all vuln_record_ok ?vs"
    by code_simp
  have c: "spec_score ?vs = 2620"
    by code_simp
  have d: "map_of (report_of [] []) ''Vulnerabilities'' = Some (JList [])"
    by (simp add: report_of_def)
  have e: "list_all vuln_record_ok []"
    by simp
  show ?thesis
    using vulnerability_score_is_weighted_sum [OF a b] c
      vulnerability_score_is_weighted_sum [OF d e]
    by (simp add: spec_score_def)
qed

text \<open>
  C3 as stated fails: a record of severity \<^verbatim>\<open>high\<close> whose \<^verbatim>\<open>Product\<close> is a string
  weighs 500 and a record whose flat severity is null weighs 0, yet on either the scan
  raises \<^verbatim>\<open>AttributeError\<close> (at \<^verbatim>\<open>product.get\<close>, at \<^verbatim>\<open>severity.lower()\<close>) and
  gives no score.
\<close>

theorem vulnerability_scan_aborts_on_record:
  "spec_score [vulnerability_high_product_str] = 500 \<and>
   snd (get_alerts_vuln (report_of [vulnerability_high_product_str] [])) = Inl AttributeError \<and>
   spec_score [vulnerability_severity_null] = 0 \<and>
   snd (get_alerts_vuln (report_of [vulnerability_severity_null] [])) = Inl AttributeError"
  by code_simp

text \<open>
  C4, as the code has it. For every vulnerability record whose CVSS score fields are
  mappings where the code reads them (\<^verbatim>\<open>cvss_v3_score\<close> always, \<^verbatim>\<open>cvss_v2_score\<close>
  when the former gives no severity), the severity used for scoring is the severity under
  \<^verbatim>\<open>cvss_v3_score\<close> if present, otherwise the severity under \<^verbatim>\<open>cvss_v2_score\<close> if
  present, otherwise the flat \<^verbatim>\<open>severity\<close> field of the details, and the empty string
  when none is present or when the details are not a mapping; so with both score fields
  holding a severity, the one of version 3 is used. Under a score field a severity that
  is null counts as absent.
\<close>

theorem severity_resolution_priority:
  "(\<forall>details. map_of vuln ''Details'' = Some (JDict details) \<and> scores_ok (JDict details) \<longrightarrow>
      resolve_severity (JDict vuln) =
        Inr (case severity_under details ''cvss_v3_score'' of
               Some s3 \<Rightarrow> s3
             | None \<Rightarrow>
                 (case severity_under details ''cvss_v2_score'' of
                    Some s2 \<Rightarrow> s2
                  | None \<Rightarrow>
                      (case map_of details ''severity'' of
                         Some s \<Rightarrow> s
                       | None \<Rightarrow> JStr '''')))) \<and>
   (\<forall>d. map_of vuln ''Details'' = Some d \<and> \<not> isinstance_dict d \<longrightarrow>
      resolve_severity (JDict vuln) = Inr (JStr '''')) \<and>
   (map_of vuln ''Details'' = None \<longrightarrow> resolve_severity (JDict vuln) = Inr (JStr ''''))"
proof (intro conjI allI impI)
  fix details
  assume "map_of vuln ''Details'' = Some (JDict details) \<and> scores_ok (JDict details)"
  then have "details_of vuln = JDict details" and "scores_ok (details_of vuln)"
    by (simp_all add: details_of_def)
  then show "resolve_severity (JDict vuln) =
        Inr (case severity_under details ''cvss_v3_score'' of
               Some s3 \<Rightarrow> s3
             | None \<Rightarrow>
                 (case severity_under details ''cvss_v2_score'' of
                    Some s2 \<Rightarrow> s2
                  | None \<Rightarrow>
                      (case map_of details ''severity'' of
                         Some s \<Rightarrow> s
                       | None \<Rightarrow> JStr '''')))"
    using resolve_severity_spec [of vuln] by (simp add: spec_severity_def)
next
  fix d
  assume "map_of vuln ''Details'' = Some d \<and> \<not> isinstance_dict d"
  then show "resolve_severity (JDict vuln) = Inr (JStr '''')"
    by (simp add: resolve_severity_def bind_res_def)
next
  assume "map_of vuln ''Details'' = None"
  then show "resolve_severity (JDict vuln) = Inr (JStr '''')"
    by (simp add: resolve_severity_def bind_res_def)
qed

theorem severity_resolution_priority_witness:
  "resolve_severity
     (JDict [(''Details'', JDict [(''severity'', JStr ''low''),
                                  (''cvss_v2_score'', JDict [(''severity'', JStr ''medium'')]),
                                  (''cvss_v3_score'', JDict [(''severity'', JStr ''HIGH'')])])])
     = Inr (JStr ''HIGH'') \<and>
   resolve_severity (JDict [(''Details'', JList [])]) = Inr (JStr '''') \<and>
   resolve_severity (JDict [(''CVEID'', JStr ''CVE-1'')]) = Inr (JStr '''')"
proof -
  let ?d = "[(''severity'', JStr ''low''),
             (''cvss_v2_score'', JDict [(''severity'', JStr ''medium'')]),
             (''cvss_v3_score'', JDict [(''severity'', JStr ''HIGH'')])]"
  have a: "map_of [(''Details'', JDict ?d)] ''Details'' = Some (JDict ?d) \<and> scores_ok (JDict ?d)"
    by (simp add: scores_ok_def mapping_or_absent_def severity_under_def)
  have b: "map_of [(''Details'', JList [])] ''Details'' = Some (JList []) \<and>
           \<not> isinstance_dict (JList [])"
    by simp
  have c: "map_of [(''CVEID'', JStr ''CVE-1'')] ''Details'' = None"
    by simp
  have v3: "severity_under ?d ''cvss_v3_score'' = Some (JStr ''HIGH'')"
    by (simp add: severity_under_def)
  show ?thesis
    using severity_resolution_priority [of "[(''Details'', JDict ?d)]"] a v3
      severity_resolution_priority [of "[(''Details'', JList [])]"] b
      severity_resolution_priority [of "[(''CVEID'', JStr ''CVE-1'')]"] c
    by (metis option.simps(5))
qed

text \<open>
  C4 as stated fails: with \<^verbatim>\<open>cvss_v3_score\<close> null and a \<^verbatim>\<open>cvss_v2_score\<close> of
  severity \<^verbatim>\<open>high\<close>, no severity is present under version 3 and \<^verbatim>\<open>high\<close> is
  present under version 2, yet the resolution raises \<^verbatim>\<open>AttributeError\<close> (at
  \<^verbatim>\<open>cvss_v3.get\<close>) and gives no severity.
\<close>

theorem severity_resolution_aborts_on_null_score:
  "severity_under details_v3_null ''cvss_v3_score'' = None \<and>
   severity_under details_v3_null ''cvss_v2_score'' = Some (JStr ''high'') \<and>
   resolve_severity (JDict [(''Details'', JDict details_v3_null)]) = Inl AttributeError"
  by code_simp

text \<open>
  C5, as the code has it. For every list of detection records on which the scan raises
  no exception (as on every list of records of the expected shape: mappings whose
  \<^verbatim>\<open>Detection\<close>, if present, is a mapping whose \<^verbatim>\<open>Type\<close>, if present, is a string),
  the malware signal is raised iff some detection's Type, compared case-insensitively, is
  \<^verbatim>\<open>malware\<close>; the secrets signal iff some Type is \<^verbatim>\<open>secret\<close>; the misconfiguration
  signal iff some Type is \<^verbatim>\<open>misconfiguration\<close> or \<^verbatim>\<open>cis\<close>; with no detections none
  is raised. The malware and secrets signals are the values returned (2 and 3, else 0);
  the misconfiguration scan returns 0 either way and its signal is the alert it logs.
\<close>

theorem detection_signals:
  assumes "map_of r ''Detections'' = Some (JList ds)"
  shows "(\<not> isl (snd (get_alerts_malware r)) \<longrightarrow>
        snd (get_alerts_malware r) =
          Inr (if list_ex (has_type [''malware'']) ds then 2 else 0)) \<and>
     (\<not> isl (snd (get_alerts_secrets r)) \<longrightarrow>
        snd (get_alerts_secrets r) =
          Inr (if list_ex (has_type [''secret'']) ds then 3 else 0)) \<and>
     (\<not> isl (snd (get_alerts_misconfig r)) \<longrightarrow>
        (Log WARNING ''Alert: Misconfiguration found'' [] \<in> set (fst (get_alerts_misconfig r)))
          = list_ex (has_type [''misconfiguration'', ''cis'']) ds \<and>
        snd (get_alerts_misconfig r) = Inr 0) \<and>
     (list_all detection_ok ds \<longrightarrow>
        \<not> isl (snd (get_alerts_malware r)) \<and> \<not> isl (snd (get_alerts_secrets r)) \<and>
        \<not> isl (snd (get_alerts_misconfig r))) \<and>
     (ds = [] \<longrightarrow>
        get_alerts_malware r = ([Log INFO ''Searching for malware in scan report...'' []], Inr 0) \<and>
        get_alerts_secrets r =
          ([Log INFO ''Searching for leaked secrets in scan report...'' []], Inr 0) \<and>
        get_alerts_misconfig r =
          ([Log INFO ''Searching for misconfigurations in scan report...'' []], Inr 0))"
proof (intro conjI impI)
  assume a: "\<not> isl (snd (get_alerts_malware r))"
  show "snd (get_alerts_malware r) =
          Inr (if list_ex (has_type [''malware'']) ds then 2 else 0)"
    using scan_detections_returned_events [OF assms a [unfolded get_alerts_malware_def]]
    by (simp add: get_alerts_malware_def type_malware_def)
next
  assume a: "\<not> isl (snd (get_alerts_secrets r))"
  show "snd (get_alerts_secrets r) =
          Inr (if list_ex (has_type [''secret'']) ds then 3 else 0)"
    using scan_detections_returned_events [OF assms a [unfolded get_alerts_secrets_def]]
    by (simp add: get_alerts_secrets_def type_secret_def)
next
  assume a: "\<not> isl (snd (get_alerts_misconfig r))"
  note ev = scan_detections_returned_events [OF assms a [unfolded get_alerts_misconfig_def]]
  show "(Log WARNING ''Alert: Misconfiguration found'' [] \<in> set (fst (get_alerts_misconfig r)))
          = list_ex (has_type [''misconfiguration'', ''cis'']) ds"
    using ev by (simp add: get_alerts_misconfig_def type_misconfig_def type_cis_def)
  show "snd (get_alerts_misconfig r) = Inr 0"
    using ev by (simp add: get_alerts_misconfig_def type_misconfig_def type_cis_def)
next
  assume ok: "list_all detection_ok ds"
  show "\<not> isl (snd (get_alerts_malware r))"
    unfolding get_alerts_malware_def using assms ok by (rule scan_detections_ok_returns)
  show "\<not> isl (snd (get_alerts_secrets r))"
    unfolding get_alerts_secrets_def using assms ok by (rule scan_detections_ok_returns)
  show "\<not> isl (snd (get_alerts_misconfig r))"
    unfolding get_alerts_misconfig_def using assms ok by (rule scan_detections_ok_returns)
next
  assume e: "ds = []"
  show "get_alerts_malware r = ([Log INFO ''Searching for malware in scan report...'' []], Inr 0)"
    using assms e by (simp add: get_alerts_malware_def scan_detections_eq ret_def)
  show "get_alerts_secrets r =
          ([Log INFO ''Searching for leaked secrets in scan report...'' []], Inr 0)"
    using assms e by (simp add: get_alerts_secrets_def scan_detections_eq ret_def)
  show "get_alerts_misconfig r =
          ([Log INFO ''Searching for misconfigurations in scan report...'' []], Inr 0)"
    using assms e by (simp add: get_alerts_misconfig_def scan_detections_eq ret_def)
qed

theorem detection_signals_witness:
  "snd (get_alerts_malware
          (report_of [] [detection_of_type (JStr ''CIS''), JDict [],
                         detection_of_type (JStr ''Malware''), detection_of_type (JInt 5)]))
     = Inr 2 \<and>
   snd (get_alerts_secrets
          (report_of [] [detection_of_type (JStr ''CIS''), JDict [],
                         detection_of_type (JStr ''Malware'')])) = Inr 0 \<and>
   Log WARNING ''Alert: Misconfiguration found'' []
     \<in> set (fst (get_alerts_misconfig
          (report_of [] [detection_of_type (JStr ''CIS''), JDict [],
                         detection_of_type (JStr ''Malware'')]))) \<and>
   get_alerts_misconfig (report_of [] []) =
     ([Log INFO ''Searching for misconfigurations in scan report...'' []], Inr 0)"
proof -
  let ?ds = "[detection_of_type (JStr ''CIS''), JDict [], detection_of_type (JStr ''Malware'')]"
  let ?ds5 = "[detection_of_type (JStr ''CIS''), JDict [], detection_of_type (JStr ''Malware''),
               detection_of_type (JInt 5)]"
  have a: "map_of (report_of [] ?ds) ''Detections'' = Some (JList ?ds)"
    by (simp add: report_of_def)
  have a5: "map_of (report_of [] ?ds5) ''Detections'' = Some (JList ?ds5)"
    by (simp add: report_of_def)
  have b: "list_all detection_ok ?ds"
    by code_simp
  have r5: "\<not> isl (snd (get_alerts_malware (report_of [] ?ds5)))"
    by code_simp
  have m5: "list_ex (has_type [''malware'']) ?ds5"
    by code_simp
  have s: "\<not> list_ex (has_type [''secret'']) ?ds"
    by code_simp
  have c: "list_ex (has_type [''misconfiguration'', ''cis'']) ?ds"
    by code_simp
  have d: "map_of (report_of [] []) ''Detections'' = Some (JList [])"
    by (simp add: report_of_def)
  from detection_signals [OF a] b
  have ret: "\<not> isl (snd (get_alerts_secrets (report_of [] ?ds)))"
    "\<not> isl (snd (get_alerts_misconfig (report_of [] ?ds)))"
    by blast+
  have 1: "snd (get_alerts_malware (report_of [] ?ds5)) = Inr 2"
    using detection_signals [OF a5] r5 m5 by presburger
  have 2: "snd (get_alerts_secrets (report_of [] ?ds)) = Inr 0"
    using detection_signals [OF a] ret(1) s by presburger
  have 3: "Log WARNING ''Alert: Misconfiguration found'' []
     \<in> set (fst (get_alerts_misconfig (report_of [] ?ds)))"
    using detection_signals [OF a] ret(2) c by blast
  have 4: "get_alerts_misconfig (report_of [] []) =
     ([Log INFO ''Searching for misconfigurations in scan report...'' []], Inr 0)"
    using detection_signals [OF d] by blast
  show ?thesis
    using 1 2 3 4 by blast
qed

text \<open>
  C5 as stated fails: the list below holds a detection of Type \<^verbatim>\<open>malware\<close>, behind a
  detection whose Type is a number; the malware scan raises \<^verbatim>\<open>AttributeError\<close> at the
  first record and raises no signal (it logs no alert and returns no value).
\<close>

theorem detection_scan_aborts_before_malware:
  "list_ex (has_type [''malware'']) detections_malware_last \<and>
   snd (get_alerts_malware (report_of [] detections_malware_last)) = Inl AttributeError \<and>
   fst (get_alerts_malware (report_of [] detections_malware_last)) =
     [Log INFO ''Searching for malware in scan report...'' []]"
  by code_simp

text \<open>
  C6 at a retry count of 0, with a report endpoint that would answer 503: the poller
  makes no attempt and raises the unbound-variable error, not the report-unavailable
  error with a status code. (For a retry count of at least 1 the facts
  \<open>get_scanreport_first_200\<close> and \<open>get_scanreport_exhausted\<close> above give what C6 says.)
\<close>

theorem poller_without_attempts:
  "get_scanreport example_image (JStr ''tok'') 0
     (\<lambda>count. Inr \<lparr>status_code = 503, json_result = Inl ValueError\<rparr>) =
     ([Log INFO ''Downloading Image Scan Report'' [], Log ERROR ''Retries exhausted'' []],
      Inl UnboundLocalError)"
  by (simp add: get_scanreport_no_turn)

text \<open>
  C7. The authenticate operation returns the \<^verbatim>\<open>access_token\<close> of the response body
  iff the auth endpoint answers with status 200 or 201 (the body then holding an
  \<^verbatim>\<open>access_token\<close>); on any other status it raises an error that carries the HTTP
  method, the URL and the status code, after a single request (no retry), and the run
  then exits with \<open>ScriptFailure = 10\<close> without any request to the report endpoint: the
  only events of the run are the log line of the authentication, the one POST and the
  log line of the failure.
\<close>

theorem authentication_token_or_fatal:
  "((status_code resp = 200 \<or> status_code resp = 201) \<and> json_result resp = Inr body \<and>
      py_getitem body ''access_token'' = Inr token \<longrightarrow>
      snd (get_api_token self (Inr resp)) = Inr token) \<and>
   (\<forall>tk. snd (get_api_token self (Inr resp)) = Inr tk \<longrightarrow>
      (status_code resp = 200 \<or> status_code resp = 201)) \<and>
   (status_code resp \<noteq> 200 \<and> status_code resp \<noteq> 201 \<longrightarrow>
      get_api_token self (Inr resp) =
        ([Log INFO ''Authenticating with CrowdStrike Falcon API'' [],
          HttpPost (auth_url self)
            [(''client_id'', client_id self), (''client_secret'', client_secret self)]],
         Inl (APIError (''POST '' @ auth_url self @ '' '' @ str_int (status_code resp))))) \<and>
   (docker_from_env w = None \<and>
    ScanImage_init (arg_client_id w) (env_client_secret w) (arg_repo w) (arg_tag w)
      (arg_cloud w) = Inr self \<and>
    container_steps w = None \<and> auth_response w = Inr resp \<and>
    status_code resp \<noteq> 200 \<and> status_code resp \<noteq> 201 \<longrightarrow>
      main w =
        ([Log INFO ''Authenticating with CrowdStrike Falcon API'' [],
          HttpPost (auth_url self)
            [(''client_id'', client_id self), (''client_secret'', client_secret self)],
          Log ERROR ''Unable to scan'' []],
         code_value ScriptFailure))"
proof (intro conjI allI impI)
  assume "(status_code resp = 200 \<or> status_code resp = 201) \<and> json_result resp = Inr body \<and>
      py_getitem body ''access_token'' = Inr token"
  then show "snd (get_api_token self (Inr resp)) = Inr token"
    by (simp add: get_api_token_ok bind_res_def)
next
  fix tk
  assume "snd (get_api_token self (Inr resp)) = Inr tk"
  then show "status_code resp = 200 \<or> status_code resp = 201"
    using get_api_token_refused [of resp self] by force
next
  assume "status_code resp \<noteq> 200 \<and> status_code resp \<noteq> 201"
  then show "get_api_token self (Inr resp) =
        ([Log INFO ''Authenticating with CrowdStrike Falcon API'' [],
          HttpPost (auth_url self)
            [(''client_id'', client_id self), (''client_secret'', client_secret self)]],
         Inl (APIError (''POST '' @ auth_url self @ '' '' @ str_int (status_code resp))))"
    by (simp add: get_api_token_refused)
next
  assume a: "docker_from_env w = None \<and>
    ScanImage_init (arg_client_id w) (env_client_secret w) (arg_repo w) (arg_tag w)
      (arg_cloud w) = Inr self \<and>
    container_steps w = None \<and> auth_response w = Inr resp \<and>
    status_code resp \<noteq> 200 \<and> status_code resp \<noteq> 201"
  then have "obtain_report w =
     ([Log INFO ''Authenticating with CrowdStrike Falcon API'' [],
       HttpPost (auth_url self)
         [(''client_id'', client_id self), (''client_secret'', client_secret self)]],
      Inl (APIError (''POST '' @ auth_url self @ '' '' @ str_int (status_code resp))))"
    by (intro obtain_report_auth_refused) simp_all
  then show "main w =
        ([Log INFO ''Authenticating with CrowdStrike Falcon API'' [],
          HttpPost (auth_url self)
            [(''client_id'', client_id self), (''client_secret'', client_secret self)],
          Log ERROR ''Unable to scan'' []],
         code_value ScriptFailure)"
    by (simp add: main_of_obtain_failure)
qed

theorem authentication_token_or_fatal_witness:
  "snd (get_api_token example_image
          (Inr \<lparr>status_code = 201,
                json_result = Inr (JDict [(''access_token'', JStr ''tok'')])\<rparr>))
     = Inr (JStr ''tok'') \<and>
   snd (get_api_token example_image (Inr \<lparr>status_code = 401, json_result = Inl ValueError\<rparr>))
     = Inl (APIError ''POST https://api.crowdstrike.com/oauth2/token 401'') \<and>
   main world_auth_401 =
     ([Log INFO ''Authenticating with CrowdStrike Falcon API'' [],
       HttpPost ''https://api.crowdstrike.com/oauth2/token''
         [(''client_id'', ''id''), (''client_secret'', ''pw'')],
       Log ERROR ''Unable to scan'' []],
      10)"
proof -
  let ?ok = "\<lparr>status_code = 201,
              json_result = Inr (JDict [(''access_token'', JStr ''tok'')])\<rparr>"
  let ?no = "\<lparr>status_code = 401, json_result = (Inl ValueError :: error + json)\<rparr>"
  have a: "(status_code ?ok = 200 \<or> status_code ?ok = 201) \<and>
           json_result ?ok = Inr (JDict [(''access_token'', JStr ''tok'')]) \<and>
           py_getitem (JDict [(''access_token'', JStr ''tok'')]) ''access_token''
             = Inr (JStr ''tok'')"
    by (simp add: dict_getitem_def)
  have b: "status_code ?no \<noteq> 200 \<and> status_code ?no \<noteq> 201"
    by simp
  have c: "docker_from_env world_auth_401 = None \<and>
    ScanImage_init (arg_client_id world_auth_401) (env_client_secret world_auth_401)
      (arg_repo world_auth_401) (arg_tag world_auth_401) (arg_cloud world_auth_401)
      = Inr example_image \<and>
    container_steps world_auth_401 = None \<and> auth_response world_auth_401 = Inr ?no \<and>
    status_code ?no \<noteq> 200 \<and> status_code ?no \<noteq> 201"
    by (simp add: world_auth_401_def example_world_def ScanImage_init_example)
  have d: "str_int 401 = ''401''"
    by code_simp
  have e: "auth_url example_image = ''https://api.crowdstrike.com/oauth2/token'' \<and>
           client_id example_image = ''id'' \<and> client_secret example_image = ''pw''"
    by (simp add: example_image_def)
  have 1: "snd (get_api_token example_image (Inr ?ok)) = Inr (JStr ''tok'')"
    using authentication_token_or_fatal
      [of ?ok "JDict [(''access_token'', JStr ''tok'')]" "JStr ''tok''" example_image] a
    by blast
  have 2: "get_api_token example_image (Inr ?no) =
        ([Log INFO ''Authenticating with CrowdStrike Falcon API'' [],
          HttpPost (auth_url example_image)
            [(''client_id'', client_id example_image),
             (''client_secret'', client_secret example_image)]],
         Inl (APIError (''POST '' @ auth_url example_image @ '' '' @ str_int (status_code ?no))))"
    using authentication_token_or_fatal [of ?no _ _ example_image] b by blast
  have 3: "main world_auth_401 =
        ([Log INFO ''Authenticating with CrowdStrike Falcon API'' [],
          HttpPost (auth_url example_image)
            [(''client_id'', client_id example_image),
             (''client_secret'', client_secret example_image)],
          Log ERROR ''Unable to scan'' []],
         code_value ScriptFailure)"
    using authentication_token_or_fatal [of ?no _ _ example_image world_auth_401] c by blast
  have 4: "status_code ?ok = 200 \<or> status_code ?ok = 201"
    using authentication_token_or_fatal [of ?ok _ _ example_image] 1 by blast
  show ?thesis
    using 1 2 3 4 d e by simp
qed

text \<open>
  C8, as the code has it. The exit code does not depend on misconfiguration detections:
  for any two reports that differ only in detections whose Type is
  \<^verbatim>\<open>misconfiguration\<close> or \<^verbatim>\<open>cis\<close> (the other detections, the vulnerabilities and the
  score threshold being the same) and on which the misconfiguration scan itself raises
  no exception, the exit code is the same; and a report with misconfiguration detections
  only and a score below the threshold exits with \<open>Success = 0\<close>.
\<close>

theorem exit_code_ignores_misconfig:
  assumes "snd (obtain_report w1) = Inr r1" and "snd (obtain_report w2) = Inr r2"
    and "int_score w1 = int_score w2"
    and "map_of r1 ''Vulnerabilities'' = map_of r2 ''Vulnerabilities''"
    and "map_of r1 ''Detections'' = Some (JList ds1)"
    and "map_of r2 ''Detections'' = Some (JList ds2)"
    and "filter (\<lambda>d. \<not> has_type misconfig_types d) ds1 =
         filter (\<lambda>d. \<not> has_type misconfig_types d) ds2"
    and "\<not> isl (snd (get_alerts_misconfig r1))"
    and "\<not> isl (snd (get_alerts_misconfig r2))"
  shows "snd (main w1) = snd (main w2) \<and>
     (list_all (has_type misconfig_types) ds1 \<and> snd (get_alerts_vuln r1) = Inr score \<and>
      int_score w1 = Inr threshold \<and> score < threshold \<longrightarrow>
        snd (main w1) = code_value Success)"
proof (intro conjI impI)
  have v: "snd (get_alerts_vuln r1) = snd (get_alerts_vuln r2)"
    using assms(4) by (rule get_alerts_vuln_cong)
  have s: "get_alerts_secrets r1 = get_alerts_secrets r2"
    unfolding get_alerts_secrets_def
    using assms(5,6,7) misconfig_disjoint(1) by (rule scan_detections_drop)
  have m: "get_alerts_malware r1 = get_alerts_malware r2"
    unfolding get_alerts_malware_def
    using assms(5,6,7) misconfig_disjoint(2) by (rule scan_detections_drop)
  from assms(8) obtain c1 where c1: "snd (get_alerts_misconfig r1) = Inr c1"
    by (cases "snd (get_alerts_misconfig r1)") auto
  from assms(9) obtain c2 where c2: "snd (get_alerts_misconfig r2) = Inr c2"
    by (cases "snd (get_alerts_misconfig r2)") auto
  have "snd (evaluate_and_decide w1 r1) = snd (evaluate_and_decide w2 r2)"
    by (simp add: snd_evaluate_and_decide v s m c1 c2 assms(3) bind_res_def)
  then show "snd (main w1) = snd (main w2)"
    by (simp add: snd_main snd_main_try assms(1,2))
next
  assume a: "list_all (has_type misconfig_types) ds1 \<and> snd (get_alerts_vuln r1) = Inr score \<and>
      int_score w1 = Inr threshold \<and> score < threshold"
  then have ok: "list_all detection_ok ds1"
    and nosec: "\<not> list_ex (has_type [type_secret]) ds1"
    and nomal: "\<not> list_ex (has_type [type_malware]) ds1"
    using only_misconfig_no_signal [OF _ misconfig_disjoint(1), of ds1]
      only_misconfig_no_signal [OF _ misconfig_disjoint(2), of ds1]
    by simp_all
  show "snd (main w1) = code_value Success"
    using a nosec nomal
    by (simp add: snd_main snd_main_try snd_evaluate_and_decide assms(1)
        get_alerts_secrets_def get_alerts_malware_def get_alerts_misconfig_def
        scan_detections_ok [OF assms(5) ok] decision_def bind_res_def)
qed

theorem exit_code_ignores_misconfig_witness:
  "snd (main (example_world
          (report_of [vulnerability_with [(''severity'', JStr ''low'')]]
             [detection_of_type (JStr ''CIS''), detection_of_type (JStr ''misconfiguration'')])))
   = snd (main (example_world (report_of [vulnerability_with [(''severity'', JStr ''low'')]] []))) \<and>
   snd (main (example_world
          (report_of [vulnerability_with [(''severity'', JStr ''low'')]]
             [detection_of_type (JStr ''CIS''), detection_of_type (JStr ''misconfiguration'')])))
   = 0"
proof -
  let ?vs = "[vulnerability_with [(''severity'', JStr ''low'')]]"
  let ?ds = "[detection_of_type (JStr ''CIS''), detection_of_type (JStr ''misconfiguration'')]"
  let ?r1 = "report_of ?vs ?ds"
  let ?r2 = "report_of ?vs []"
  have a1: "snd (obtain_report (example_world ?r1)) = Inr ?r1"
    by (rule obtain_report_example)
  have a2: "snd (obtain_report (example_world ?r2)) = Inr ?r2"
    by (rule obtain_report_example)
  have a3: "int_score (example_world ?r1) = int_score (example_world ?r2)"
    by (simp add: example_world_def)
  have a4: "map_of ?r1 ''Vulnerabilities'' = map_of ?r2 ''Vulnerabilities''"
    by (simp add: report_of_def)
  have a5: "map_of ?r1 ''Detections'' = Some (JList ?ds)"
    by (simp add: report_of_def)
  have a6: "map_of ?r2 ''Detections'' = Some (JList [])"
    by (simp add: report_of_def)
  have a7: "filter (\<lambda>d. \<not> has_type misconfig_types d) ?ds =
            filter (\<lambda>d. \<not> has_type misconfig_types d) []"
    by code_simp
  have a8: "\<not> isl (snd (get_alerts_misconfig ?r1))"
    by code_simp
  have a9: "\<not> isl (snd (get_alerts_misconfig ?r2))"
    by code_simp
  have b: "list_all (has_type misconfig_types) ?ds \<and> snd (get_alerts_vuln ?r1) = Inr 20 \<and>
      int_score (example_world ?r1) = Inr 500 \<and> (20::int) < 500"
    by code_simp
  show ?thesis
    using exit_code_ignores_misconfig [OF a1 a2 a3 a4 a5 a6 a7 a8 a9, of 20 500] b
    by simp
qed

text \<open>
  C8 as stated fails: the two reports below differ in one \<^verbatim>\<open>cis\<close> detection only.
  With it the misconfiguration scan stops at that detection and the run exits with
  \<open>Secrets = 3\<close>; without it the scan reaches the detection whose Type is a number,
  raises, and the run exits with \<open>ScriptFailure = 10\<close>.
\<close>

theorem misconfig_detection_changes_exit_code:
  "filter (\<lambda>d. \<not> has_type misconfig_types d) detections_with_cis =
     filter (\<lambda>d. \<not> has_type misconfig_types d) detections_without_cis \<and>
   snd (main (example_world (report_of [] detections_with_cis))) = 3 \<and>
   snd (main (example_world (report_of [] detections_without_cis))) = 10"
  by code_simp

text \<open>
  C9. For every scan report, exporting it to a file and re-loading that file yields a
  document identical to the original report: after an export that succeeds the file holds
  \<^verbatim>\<open>json.dumps(self, indent=4)\<close>, and reading the file gives the report. The report is
  a dict of Python, so each of its association lists holds a key once; the serialiser and
  the reader are the ones modelled above from the library's documentation.
\<close>

theorem export_reload_identity:
  assumes "keys_distinct (JDict r)"
  shows "fst (export r filename None) = [WriteFile filename (json_dumps r)] \<and>
     reload (fst (export r filename None)) filename = Some (JDict r)"
  using json_loads_dumps [OF assms]
  by (simp add: export_def may_raise_def io_simps reload_def)

theorem export_reload_identity_witness:
  "reload (fst (export example_document ''report.json'' None)) ''report.json''
     = Some (JDict example_document)"
proof -
  have "keys_distinct (JDict example_document)"
    by code_simp
  from export_reload_identity [OF this, of "''report.json''"] show ?thesis
    by blast
qed

text \<open>
  C10. When the report poller is called with a retry count of 0 (or below), the body of
  the polling loop never runs: no wait and no request happen, and the exhaustion branch
  reads the status code of a response variable that was never assigned, so the poller
  ends with an unbound-variable error, not with the report-unavailable error that
  carries a status code. The run still ends with \<open>ScriptFailure = 10\<close>, through the
  catch-all handler (the one that logs \<^verbatim>\<open>Unknown error\<close>).
\<close>

theorem zero_retries_unbound_response:
  assumes "retry_count \<le> 0"
  shows "get_scanreport self token retry_count get =
       ([Log INFO ''Downloading Image Scan Report'' [], Log ERROR ''Retries exhausted'' []],
        Inl UnboundLocalError) \<and>
     (docker_from_env w = None \<and>
      ScanImage_init (arg_client_id w) (env_client_secret w) (arg_repo w) (arg_tag w)
        (arg_cloud w) = Inr self \<and>
      container_steps w = None \<and>
      snd (get_api_token self (auth_response w)) = Inr token \<and>
      arg_retry_count w = retry_count \<longrightarrow>
        main w =
          (fst (get_api_token self (auth_response w)) @
             [Log INFO ''Downloading Image Scan Report'' [],
              Log ERROR ''Retries exhausted'' [],
              Log ERROR ''Unknown error'' []],
           code_value ScriptFailure))"
proof (intro conjI impI)
  show "get_scanreport self token retry_count get =
       ([Log INFO ''Downloading Image Scan Report'' [], Log ERROR ''Retries exhausted'' []],
        Inl UnboundLocalError)"
    using assms by (rule get_scanreport_no_turn)
next
  assume a: "docker_from_env w = None \<and>
      ScanImage_init (arg_client_id w) (env_client_secret w) (arg_repo w) (arg_tag w)
        (arg_cloud w) = Inr self \<and>
      container_steps w = None \<and>
      snd (get_api_token self (auth_response w)) = Inr token \<and>
      arg_retry_count w = retry_count"
  with assms have "obtain_report w =
     (fst (get_api_token self (auth_response w)) @
        [Log INFO ''Downloading Image Scan Report'' [], Log ERROR ''Retries exhausted'' []],
      Inl UnboundLocalError)"
    by (intro obtain_report_no_turn) simp_all
  then show "main w =
          (fst (get_api_token self (auth_response w)) @
             [Log INFO ''Downloading Image Scan Report'' [],
              Log ERROR ''Retries exhausted'' [],
              Log ERROR ''Unknown error'' []],
           code_value ScriptFailure)"
    by (simp add: main_of_obtain_failure)
qed

theorem zero_retries_unbound_response_witness:
  "snd (get_scanreport example_image (JStr ''tok'') 0 (report_response world_retry_0))
     = Inl UnboundLocalError \<and>
   main world_retry_0 =
     ([Log INFO ''Authenticating with CrowdStrike Falcon API'' [],
       HttpPost ''https://api.crowdstrike.com/oauth2/token''
         [(''client_id'', ''id''), (''client_secret'', ''pw'')],
       Log INFO ''Downloading Image Scan Report'' [],
       Log ERROR ''Retries exhausted'' [],
       Log ERROR ''Unknown error'' []],
      10)"
proof -
  have z: "(0::int) \<le> 0"
    by simp
  have tok: "get_api_token example_image (auth_response world_retry_0) =
     ([Log INFO ''Authenticating with CrowdStrike Falcon API'' [],
       HttpPost ''https://api.crowdstrike.com/oauth2/token''
         [(''client_id'', ''id''), (''client_secret'', ''pw'')]],
      Inr (JStr ''tok''))"
    by (simp add: world_retry_0_def example_world_def get_api_token_ok bind_res_def
        dict_getitem_def example_image_def)
  have c: "docker_from_env world_retry_0 = None \<and>
      ScanImage_init (arg_client_id world_retry_0) (env_client_secret world_retry_0)
        (arg_repo world_retry_0) (arg_tag world_retry_0) (arg_cloud world_retry_0)
        = Inr example_image \<and>
      container_steps world_retry_0 = None \<and>
      snd (get_api_token example_image (auth_response world_retry_0)) = Inr (JStr ''tok'') \<and>
      arg_retry_count world_retry_0 = 0"
    using tok by (simp add: world_retry_0_def example_world_def ScanImage_init_example)
  show ?thesis
    using zero_retries_unbound_response
      [OF z, of example_image "JStr ''tok''" "report_response world_retry_0" world_retry_0]
      c tok
    by simp
qed

end
